theory Spec2Isabelle
  imports Main "HOL-Library.Char_ord" "HOL-Library.List_Lexorder" "HOL-Library.Sublist"
begin

section \<open>The offline attendance store of the client\<close>

text \<open>
  An \<open>OfflineAttendanceRecord\<close> is the object kept in the IndexedDB object store
  \<open>attendanceRecords\<close>. The TypeScript interface types the fields as strings; at run
  time nothing checks them, so every field a caller supplies is carried as an optional
  string (\<open>None\<close> is the JavaScript \<open>undefined\<close>). The source fields \<open>id\<close>,
  \<open>class\<close> and \<open>method\<close> are written \<open>rec_id\<close>, \<open>class_name\<close> and
  \<open>method_name\<close>.
\<close>

record OfflineAttendanceRecord =
  rec_id :: string
  studentId :: "string option"
  teacherId :: "string option"
  class_name :: "string option"
  subject :: "string option"
  period :: "string option"
  status :: "string option"
  method_name :: "string option"
  date :: "string option"
  timestamp :: nat
  synced :: bool

text \<open>The argument of \<open>storeAttendanceRecord\<close>: a record without id, timestamp and synced.\<close>

record AttendanceEvent =
  ev_studentId :: "string option"
  ev_teacherId :: "string option"
  ev_class :: "string option"
  ev_subject :: "string option"
  ev_period :: "string option"
  ev_status :: "string option"
  ev_method :: "string option"
  ev_date :: "string option"

datatype error = DatabaseNotInitialized | ConstraintError | RecordNotFound | DataError

subsection \<open>The object store\<close>

text \<open>
  The object store has the key path \<open>id\<close>: the key of a record is its own id.
  \<open>add\<close> fails on a key that is present, \<open>put\<close> replaces the record under the key
  or inserts it, and \<open>get\<close> reads by key.

  A key of IndexedDB is a number, a string, a date, a binary or an array of keys; a
  boolean is not a valid key. The index \<open>synced\<close> therefore holds only the records
  whose \<open>synced\<close> property is a valid key, and a query with a value that is not a
  valid key throws \<open>DataError\<close>; a query with a valid key returns the matching
  records of the index in ascending order of their id.
\<close>

datatype js_value = JBoolean bool | JNumber nat | JString string

definition valid_key :: "js_value \<Rightarrow> bool" where
  "valid_key v = (case v of JBoolean b \<Rightarrow> False | JNumber n \<Rightarrow> True | JString x \<Rightarrow> True)"

type_synonym object_store = "OfflineAttendanceRecord list"

definition store_get :: "object_store \<Rightarrow> string \<Rightarrow> OfflineAttendanceRecord option" where
  "store_get s k = find (\<lambda>r. rec_id r = k) s"

definition store_add :: "object_store \<Rightarrow> OfflineAttendanceRecord \<Rightarrow> error + object_store" where
  "store_add s r =
     (case store_get s (rec_id r) of
        Some old \<Rightarrow> Inl ConstraintError
      | None \<Rightarrow> Inr (s @ [r]))"

definition store_put :: "object_store \<Rightarrow> OfflineAttendanceRecord \<Rightarrow> object_store" where
  "store_put s r =
     (case store_get s (rec_id r) of
        Some old \<Rightarrow> map (\<lambda>x. if rec_id x = rec_id r then r else x) s
      | None \<Rightarrow> s @ [r])"

definition index_synced_getAll ::
  "object_store \<Rightarrow> js_value \<Rightarrow> error + OfflineAttendanceRecord list" where
  "index_synced_getAll s q =
     (if valid_key q
      then Inr (sort_key rec_id
                  (filter (\<lambda>r. valid_key (JBoolean (synced r)) \<and> JBoolean (synced r) = q) s))
      else Inl DataError)"

subsection \<open>OfflineStorage\<close>

text \<open>The field \<open>db\<close> of the class is \<open>null\<close> until \<open>initialize\<close> has run.\<close>

type_synonym db = "object_store option"

definition digit :: "nat \<Rightarrow> char" where
  "digit d = ''0123456789'' ! d"

fun dec :: "nat \<Rightarrow> string" where
  "dec n = (if n < 10 then [digit n] else dec (n div 10) @ [digit (n mod 10)])"

text \<open>
  \<open>generateId\<close> is \<open>'offline_' + Date.now() + '_' + Math.random().toString(36).substr(2, 9)\<close>:
  the clock reading \<open>now\<close> and the random suffix \<open>rnd\<close> are inputs.
\<close>

definition generateId :: "nat \<Rightarrow> string \<Rightarrow> string" where
  "generateId now rnd = ''offline_'' @ dec now @ ''_'' @ rnd"

definition offlineRecord :: "nat \<Rightarrow> string \<Rightarrow> nat \<Rightarrow> AttendanceEvent \<Rightarrow> OfflineAttendanceRecord" where
  "offlineRecord now rnd now' ev =
     \<lparr>rec_id = generateId now rnd,
      studentId = ev_studentId ev, teacherId = ev_teacherId ev, class_name = ev_class ev,
      subject = ev_subject ev, period = ev_period ev, status = ev_status ev,
      method_name = ev_method ev, date = ev_date ev,
      timestamp = now', synced = False\<rparr>"

text \<open>
  \<open>storeAttendanceRecord\<close> reads the clock twice (\<open>now\<close> inside \<open>generateId\<close>, then
  \<open>now'\<close> for the timestamp) and adds the record; it resolves to the new id.
\<close>

definition storeAttendanceRecord ::
  "nat \<Rightarrow> string \<Rightarrow> nat \<Rightarrow> db \<Rightarrow> AttendanceEvent \<Rightarrow> error + (string \<times> db)" where
  "storeAttendanceRecord now rnd now' d ev =
     (case d of
        None \<Rightarrow> Inl DatabaseNotInitialized
      | Some s \<Rightarrow>
          (case store_add s (offlineRecord now rnd now' ev) of
             Inl e \<Rightarrow> Inl e
           | Inr s' \<Rightarrow> Inr (rec_id (offlineRecord now rnd now' ev), Some s')))"

definition getPendingAttendanceRecords :: "db \<Rightarrow> error + OfflineAttendanceRecord list" where
  "getPendingAttendanceRecords d =
     (case d of
        None \<Rightarrow> Inl DatabaseNotInitialized
      | Some s \<Rightarrow> index_synced_getAll s (JBoolean False))"

definition markRecordSynced :: "db \<Rightarrow> string \<Rightarrow> error + db" where
  "markRecordSynced d recordId =
     (case d of
        None \<Rightarrow> Inl DatabaseNotInitialized
      | Some s \<Rightarrow>
          (case store_get s recordId of
             Some r \<Rightarrow> Inr (Some (store_put s (r\<lparr>synced := True\<rparr>)))
           | None \<Rightarrow> Inl RecordNotFound))"

text \<open>
  A sequence of calls of \<open>storeAttendanceRecord\<close>, each with its clock readings and random
  suffix; a rejected call leaves the store as it was.
\<close>

fun enqueue_all :: "(nat \<times> string \<times> nat \<times> AttendanceEvent) list \<Rightarrow> db \<Rightarrow> db" where
  "enqueue_all [] d = d"
| "enqueue_all ((now, rnd, now', ev) # es) d =
     (case storeAttendanceRecord now rnd now' d ev of
        Inl e \<Rightarrow> enqueue_all es d
      | Inr (i, d') \<Rightarrow> enqueue_all es d')"

definition enqueued_record :: "nat \<times> string \<times> nat \<times> AttendanceEvent \<Rightarrow> OfflineAttendanceRecord" where
  "enqueued_record e = (case e of (now, rnd, now', ev) \<Rightarrow> offlineRecord now rnd now' ev)"

text \<open>The records a database holds (none while it is not initialised).\<close>

definition stored :: "db \<Rightarrow> OfflineAttendanceRecord list" where
  "stored d = (case d of None \<Rightarrow> [] | Some s \<Rightarrow> s)"

definition mark_event :: "string \<Rightarrow> string \<Rightarrow> string \<Rightarrow> AttendanceEvent" where
  "mark_event student day per =
     \<lparr>ev_studentId = Some student, ev_teacherId = Some ''t1'', ev_class = Some ''Class 1-A'',
      ev_subject = None, ev_period = Some per, ev_status = Some ''present'',
      ev_method = Some ''manual'', ev_date = Some day\<rparr>"

definition event_key :: "AttendanceEvent \<Rightarrow> string option \<times> string option \<times> string option" where
  "event_key ev = (ev_studentId ev, ev_date ev, ev_period ev)"

definition distinct_keys :: "(nat \<times> string \<times> nat \<times> AttendanceEvent) list \<Rightarrow> nat" where
  "distinct_keys es = length (remdups (map (\<lambda>e. event_key (snd (snd (snd e)))) es))"

definition dup_enqueues :: "(nat \<times> string \<times> nat \<times> AttendanceEvent) list" where
  "dup_enqueues =
     [(1700000000000, ''k3j9x0a1b'', 1700000000000, mark_event ''s1'' ''2024-01-15'' ''1''),
      (1700000000250, ''q8w2e4r6t'', 1700000000250, mark_event ''s1'' ''2024-01-15'' ''1'')]"

definition empty_event :: AttendanceEvent where
  "empty_event =
     \<lparr>ev_studentId = None, ev_teacherId = None, ev_class = None, ev_subject = None,
      ev_period = None, ev_status = None, ev_method = None, ev_date = None\<rparr>"

section \<open>Synchronisation with the server\<close>

text \<open>
  One element of the JSON array posted to \<open>/api/attendance/mark\<close>. A property that is
  \<open>undefined\<close> is left out by \<open>JSON.stringify\<close>: it is \<open>None\<close> here.
\<close>

record body_item =
  b_id :: "string option"
  b_studentId :: "string option"
  b_teacherId :: "string option"
  b_class :: "string option"
  b_subject :: "string option"
  b_period :: "string option"
  b_status :: "string option"
  b_method :: "string option"
  b_date :: "string option"
  b_timestamp :: "nat option"
  b_synced :: "bool option"

record http_response =
  resp_status :: nat
  resp_vary_star :: bool
  resp_body :: string

definition ok :: "http_response \<Rightarrow> bool" where
  "ok r = (200 \<le> resp_status r \<and> resp_status r \<le> 299)"

text \<open>A \<open>fetch\<close> resolves to a response (of any status) or rejects.\<close>

datatype fetch_outcome = Resolved http_response | NetworkFailure

definition acked :: "fetch_outcome \<Rightarrow> bool" where
  "acked out = (case out of Resolved resp \<Rightarrow> ok resp | NetworkFailure \<Rightarrow> False)"

subsection \<open>OfflineStorage.syncWithServer\<close>

text \<open>The conversion of a stored record "to API format".\<close>

definition apiRecord :: "OfflineAttendanceRecord \<Rightarrow> body_item" where
  "apiRecord r =
     \<lparr>b_id = None, b_studentId = studentId r, b_teacherId = None, b_class = class_name r,
      b_subject = subject r, b_period = period r, b_status = status r,
      b_method = method_name r, b_date = date r, b_timestamp = None, b_synced = None\<rparr>"

text \<open>
  The state of a pass: the database, the two counters it returns, and the requests it
  has made, each with the outcome of its \<open>fetch\<close>. The time of the last
  successful pass, which the method writes to \<open>localStorage\<close>, is not part of the
  state.
\<close>

record sync_state =
  st_db :: db
  st_success :: nat
  st_failed :: nat
  st_sent :: "(body_item list \<times> fetch_outcome) list"

text \<open>
  The body of the loop for one record; \<open>out\<close> is the outcome of its \<open>fetch\<close>. A
  rejection of \<open>markRecordSynced\<close> is caught like one of \<open>fetch\<close>.
\<close>

definition sync_step :: "fetch_outcome \<Rightarrow> OfflineAttendanceRecord \<Rightarrow> sync_state \<Rightarrow> sync_state" where
  "sync_step out r st =
     (case out of
        NetworkFailure \<Rightarrow>
          st\<lparr>st_failed := st_failed st + 1, st_sent := st_sent st @ [([apiRecord r], out)]\<rparr>
      | Resolved resp \<Rightarrow>
          if ok resp then
            (case markRecordSynced (st_db st) (rec_id r) of
               Inr d' \<Rightarrow>
                 st\<lparr>st_db := d', st_success := st_success st + 1,
                    st_sent := st_sent st @ [([apiRecord r], out)]\<rparr>
             | Inl e \<Rightarrow>
                 st\<lparr>st_failed := st_failed st + 1,
                    st_sent := st_sent st @ [([apiRecord r], out)]\<rparr>)
          else st\<lparr>st_failed := st_failed st + 1, st_sent := st_sent st @ [([apiRecord r], out)]\<rparr>)"

text \<open>The loop over the pending records; \<open>net k\<close> is the outcome of the \<open>k\<close>-th request.\<close>

fun sync_records ::
  "(nat \<Rightarrow> fetch_outcome) \<Rightarrow> nat \<Rightarrow> OfflineAttendanceRecord list \<Rightarrow> sync_state \<Rightarrow> sync_state" where
  "sync_records net k [] st = st"
| "sync_records net k (r # rs) st = sync_records net (Suc k) rs (sync_step (net k) r st)"

definition syncWithServer :: "(nat \<Rightarrow> fetch_outcome) \<Rightarrow> db \<Rightarrow> error + sync_state" where
  "syncWithServer net d =
     (case getPendingAttendanceRecords d of
        Inl e \<Rightarrow> Inl e
      | Inr pendingRecords \<Rightarrow>
          Inr (sync_records net 0 pendingRecords
                 \<lparr>st_db = d, st_success = 0, st_failed = 0, st_sent = []\<rparr>))"

subsection \<open>The service worker's syncAttendanceData\<close>

text \<open>
  The service worker opens the same database by name (it is taken to be there). Its
  \<open>getPendingAttendanceRecords\<close> and \<open>markRecordSynced\<close> carry the prefix \<open>sw_\<close>
  here; it posts the stored record as it is. The promise of the index query is returned
  from inside the \<open>try\<close> without being awaited, so its rejection is not caught there:
  it reaches \<open>syncAttendanceData\<close>, whose outer \<open>catch\<close> logs it and ends the pass.
\<close>

definition fullRecord :: "OfflineAttendanceRecord \<Rightarrow> body_item" where
  "fullRecord r =
     \<lparr>b_id = Some (rec_id r), b_studentId = studentId r, b_teacherId = teacherId r,
      b_class = class_name r, b_subject = subject r, b_period = period r,
      b_status = status r, b_method = method_name r, b_date = date r,
      b_timestamp = Some (timestamp r), b_synced = Some (synced r)\<rparr>"

definition sw_getPendingAttendanceRecords ::
  "object_store \<Rightarrow> error + OfflineAttendanceRecord list" where
  "sw_getPendingAttendanceRecords s = index_synced_getAll s (JBoolean False)"

definition sw_markRecordSynced :: "object_store \<Rightarrow> string \<Rightarrow> object_store" where
  "sw_markRecordSynced s recordId =
     (case store_get s recordId of
        Some r \<Rightarrow> store_put s (r\<lparr>synced := True\<rparr>)
      | None \<Rightarrow> s)"

record sw_state =
  sw_db :: object_store
  sw_sent :: "(body_item list \<times> fetch_outcome) list"

definition sw_sync_step :: "fetch_outcome \<Rightarrow> OfflineAttendanceRecord \<Rightarrow> sw_state \<Rightarrow> sw_state" where
  "sw_sync_step out r st =
     (case out of
        NetworkFailure \<Rightarrow> st\<lparr>sw_sent := sw_sent st @ [([fullRecord r], out)]\<rparr>
      | Resolved resp \<Rightarrow>
          if ok resp then
            st\<lparr>sw_db := sw_markRecordSynced (sw_db st) (rec_id r),
               sw_sent := sw_sent st @ [([fullRecord r], out)]\<rparr>
          else st\<lparr>sw_sent := sw_sent st @ [([fullRecord r], out)]\<rparr>)"

fun sw_sync_records ::
  "(nat \<Rightarrow> fetch_outcome) \<Rightarrow> nat \<Rightarrow> OfflineAttendanceRecord list \<Rightarrow> sw_state \<Rightarrow> sw_state" where
  "sw_sync_records net k [] st = st"
| "sw_sync_records net k (r # rs) st = sw_sync_records net (Suc k) rs (sw_sync_step (net k) r st)"

definition syncAttendanceData :: "(nat \<Rightarrow> fetch_outcome) \<Rightarrow> object_store \<Rightarrow> sw_state" where
  "syncAttendanceData net s =
     (case sw_getPendingAttendanceRecords s of
        Inl e \<Rightarrow> \<lparr>sw_db = s, sw_sent = []\<rparr>
      | Inr pendingRecords \<Rightarrow>
          sw_sync_records net 0 pendingRecords \<lparr>sw_db = s, sw_sent = []\<rparr>)"

subsection \<open>Notions used to state the results\<close>

text \<open>The ids of the records of a batch whose request was acknowledged with a 2xx status.\<close>

fun acked_ids :: "(nat \<Rightarrow> fetch_outcome) \<Rightarrow> nat \<Rightarrow> OfflineAttendanceRecord list \<Rightarrow> string set" where
  "acked_ids net k [] = {}"
| "acked_ids net k (r # rs) =
     (if acked (net k) then insert (rec_id r) (acked_ids net (Suc k) rs)
      else acked_ids net (Suc k) rs)"

definition mark_set :: "string set \<Rightarrow> object_store \<Rightarrow> object_store" where
  "mark_set A s = map (\<lambda>x. if rec_id x \<in> A then x\<lparr>synced := True\<rparr> else x) s"

definition rec0 :: OfflineAttendanceRecord where
  "rec0 =
     \<lparr>rec_id = ''offline_1700000000000_k3j9x0a1b'',
      studentId = Some ''s1'', teacherId = Some ''t1'', class_name = Some ''Class 1-A'',
      subject = None, period = Some ''1'', status = Some ''present'',
      method_name = Some ''manual'', date = Some ''2024-01-15'',
      timestamp = 1700000000000, synced = False\<rparr>"

definition rec1 :: OfflineAttendanceRecord where
  "rec1 =
     \<lparr>rec_id = ''offline_1700000000400_q8w2e4r6t'',
      studentId = Some ''s2'', teacherId = Some ''t1'', class_name = Some ''Class 1-A'',
      subject = None, period = Some ''1'', status = Some ''absent'',
      method_name = Some ''manual'', date = Some ''2024-01-15'',
      timestamp = 1700000000400, synced = False\<rparr>"

definition created :: http_response where
  "created = \<lparr>resp_status = 201, resp_vary_star = False, resp_body = ''[]''\<rparr>"

definition all_fail :: "nat \<Rightarrow> fetch_outcome" where
  "all_fail k = NetworkFailure"

definition all_ok :: "nat \<Rightarrow> fetch_outcome" where
  "all_ok k = Resolved created"

definition first_ok :: "nat \<Rightarrow> fetch_outcome" where
  "first_ok k = (if k = 0 then Resolved created else NetworkFailure)"

text \<open>The state in which \<open>syncWithServer\<close> enters its loop on the store \<open>s\<close>.\<close>

definition start_state :: "object_store \<Rightarrow> sync_state" where
  "start_state s = \<lparr>st_db = Some s, st_success = 0, st_failed = 0, st_sent = []\<rparr>"

definition pass_first_ok :: sync_state where
  "pass_first_ok = sync_records first_ok 0 [rec0, rec1] (start_state [rec0, rec1])"

definition sw_start_state :: "object_store \<Rightarrow> sw_state" where
  "sw_start_state s = \<lparr>sw_db = s, sw_sent = []\<rparr>"

text \<open>The loop run once for every element of \<open>nets\<close>, each time on the batch \<open>rs\<close>.\<close>

fun repeat_loop ::
  "(nat \<Rightarrow> fetch_outcome) list \<Rightarrow> OfflineAttendanceRecord list \<Rightarrow> sync_state \<Rightarrow> sync_state" where
  "repeat_loop [] rs st = st"
| "repeat_loop (net # nets) rs st = repeat_loop nets rs (sync_records net 0 rs st)"

section \<open>The server\<close>

text \<open>
  The rows of the attendance table and of the students table (the fields the two
  handlers read), and the part of \<open>MemStorage\<close> they use. The maps of \<open>MemStorage\<close>
  are kept as lists in insertion order.
\<close>

record Attendance =
  att_id :: string
  att_studentId :: string
  att_teacherId :: string
  att_class :: string
  att_subject :: "string option"
  att_date :: string
  att_period :: "string option"
  att_status :: string
  att_method :: string
  att_markedAt :: nat

record InsertAttendance =
  ins_studentId :: string
  ins_teacherId :: string
  ins_class :: string
  ins_subject :: "string option"
  ins_date :: string
  ins_period :: "string option"
  ins_status :: string
  ins_method :: string

record Student =
  stu_id :: string
  stu_rollNumber :: string
  stu_fullName :: string
  stu_class :: string
  stu_rfidCardId :: "string option"
  stu_photoUrl :: "string option"
  stu_isActive :: bool

record User =
  user_id :: string
  user_role :: string

record MemStorage =
  students :: "Student list"
  attendance :: "Attendance list"

text \<open>
  A request as a handler sees it: \<open>req.user\<close> (set by the session middleware when the
  session is authenticated, so \<open>req.isAuthenticated()\<close> is \<open>req.user\<close> being set), the
  query parameters \<open>class\<close> and \<open>search\<close>, and the JSON body.
\<close>

datatype json_body = JArray "body_item list" | JObject body_item

record request =
  req_user :: "User option"
  q_class :: "string option"
  q_search :: "string option"
  req_body :: json_body

definition isAuthenticated :: "request \<Rightarrow> bool" where
  "isAuthenticated req = (case req_user req of Some u \<Rightarrow> True | None \<Rightarrow> False)"

datatype payload = AttendanceRows "Attendance list" | StudentRows "Student list" | Message string

type_synonym reply = "nat \<times> payload"

text \<open>A string in a condition: \<open>undefined\<close> and the empty string are falsy.\<close>

definition truthy :: "string option \<Rightarrow> bool" where
  "truthy v = (case v of None \<Rightarrow> False | Some x \<Rightarrow> x \<noteq> [])"

subsection \<open>MemStorage\<close>

definition getAllStudents :: "MemStorage \<Rightarrow> Student list" where
  "getAllStudents st = filter stu_isActive (students st)"

text \<open>\<open>Map.set\<close>: the row replaces the one under its id, or is added last.\<close>

definition attendance_set :: "Attendance list \<Rightarrow> Attendance \<Rightarrow> Attendance list" where
  "attendance_set rows a =
     (case find (\<lambda>x. att_id x = att_id a) rows of
        Some old \<Rightarrow> map (\<lambda>x. if att_id x = att_id a then a else x) rows
      | None \<Rightarrow> rows @ [a])"

text \<open>\<open>createAttendance\<close>; \<open>uuid\<close> is the value of \<open>randomUUID()\<close>, \<open>now\<close> the clock.\<close>

definition new_row :: "string \<Rightarrow> nat \<Rightarrow> InsertAttendance \<Rightarrow> Attendance" where
  "new_row uuid now ins =
     \<lparr>att_id = uuid, att_studentId = ins_studentId ins, att_teacherId = ins_teacherId ins,
      att_class = ins_class ins, att_subject = ins_subject ins, att_date = ins_date ins,
      att_period = ins_period ins, att_status = ins_status ins, att_method = ins_method ins,
      att_markedAt = now\<rparr>"

definition createAttendance ::
  "string \<Rightarrow> nat \<Rightarrow> InsertAttendance \<Rightarrow> MemStorage \<Rightarrow> Attendance \<times> MemStorage" where
  "createAttendance uuid now ins st =
     (new_row uuid now ins, st\<lparr>attendance := attendance_set (attendance st) (new_row uuid now ins)\<rparr>)"

subsection \<open>POST /api/attendance/mark\<close>

text \<open>
  \<open>insertAttendanceSchema.parse\<close> on the element with \<open>teacherId\<close> set to the user's id
  and \<open>date\<close> defaulted to today: studentId, class, status and method must be present;
  every other property of the element (its id among them) is dropped. \<open>None\<close> is the
  thrown validation error.
\<close>

definition parse_insert :: "User \<Rightarrow> string \<Rightarrow> body_item \<Rightarrow> InsertAttendance option" where
  "parse_insert user today data =
     (case (b_studentId data, b_class data, b_status data, b_method data) of
        (Some sid, Some cls, Some stat, Some meth) \<Rightarrow>
          Some \<lparr>ins_studentId = sid, ins_teacherId = user_id user, ins_class = cls,
                ins_subject = b_subject data,
                ins_date = (if truthy (b_date data) then the (b_date data) else today),
                ins_period = b_period data, ins_status = stat, ins_method = meth\<rparr>
      | other \<Rightarrow> None)"

definition attendanceData :: "json_body \<Rightarrow> body_item list" where
  "attendanceData body = (case body of JArray items \<Rightarrow> items | JObject item \<Rightarrow> [item])"

text \<open>
  The loop of the handler; \<open>uuid k\<close> is the id drawn for the \<open>k\<close>-th row of the request.
  A validation error ends the loop; the rows created before it stay.
\<close>

fun mark_all ::
  "(nat \<Rightarrow> string) \<Rightarrow> nat \<Rightarrow> User \<Rightarrow> string \<Rightarrow> nat \<Rightarrow> body_item list \<Rightarrow>
   Attendance list \<Rightarrow> MemStorage \<Rightarrow> Attendance list option \<times> MemStorage" where
  "mark_all uuid k user today now [] results st = (Some results, st)"
| "mark_all uuid k user today now (data # rest) results st =
     (case parse_insert user today data of
        None \<Rightarrow> (None, st)
      | Some validatedData \<Rightarrow>
          (case createAttendance (uuid k) now validatedData st of
             (row, st') \<Rightarrow> mark_all uuid (Suc k) user today now rest (results @ [row]) st'))"

definition post_attendance_mark ::
  "(nat \<Rightarrow> string) \<Rightarrow> string \<Rightarrow> nat \<Rightarrow> request \<Rightarrow> MemStorage \<Rightarrow> reply \<times> MemStorage" where
  "post_attendance_mark uuid today now req st =
     (case req_user req of
        None \<Rightarrow> ((401, Message ''Authentication required''), st)
      | Some user \<Rightarrow>
          (case mark_all uuid 0 user today now (attendanceData (req_body req)) [] st of
             (Some results, st') \<Rightarrow> ((201, AttendanceRows results), st')
           | (None, st') \<Rightarrow> ((400, Message ''Failed to mark attendance''), st')))"

subsection \<open>GET /api/students\<close>

definition toLowerCase :: "string \<Rightarrow> string" where
  "toLowerCase s =
     map (\<lambda>c. if CHR ''A'' \<le> c \<and> c \<le> CHR ''Z'' then char_of (of_char c + (32::nat)) else c) s"

definition get_students :: "request \<Rightarrow> MemStorage \<Rightarrow> reply" where
  "get_students req st =
     (let all = getAllStudents st;
          byClass = (if truthy (q_class req)
                     then filter (\<lambda>s. Some (stu_class s) = q_class req) all else all);
          found = (if truthy (q_search req)
                   then filter (\<lambda>s. sublist (toLowerCase (the (q_search req))) (toLowerCase (stu_fullName s)) \<or>
                                      sublist (toLowerCase (the (q_search req))) (toLowerCase (stu_rollNumber s)))
                          byClass
                   else byClass)
      in (200, StudentRows found))"

subsection \<open>Notions used to state the results\<close>

definition valid_item :: "body_item \<Rightarrow> bool" where
  "valid_item data =
     (b_studentId data \<noteq> None \<and> b_class data \<noteq> None \<and> b_status data \<noteq> None \<and>
      b_method data \<noteq> None)"

definition row_of :: "User \<Rightarrow> string \<Rightarrow> nat \<Rightarrow> string \<Rightarrow> body_item \<Rightarrow> Attendance" where
  "row_of user today now uuid data =
     \<lparr>att_id = uuid, att_studentId = the (b_studentId data), att_teacherId = user_id user,
      att_class = the (b_class data), att_subject = b_subject data,
      att_date = (if truthy (b_date data) then the (b_date data) else today),
      att_period = b_period data, att_status = the (b_status data),
      att_method = the (b_method data), att_markedAt = now\<rparr>"

definition teacher :: User where
  "teacher = \<lparr>user_id = ''u-teacher'', user_role = ''teacher''\<rparr>"

definition raj :: Student where
  "raj = \<lparr>stu_id = ''st-1'', stu_rollNumber = ''001'', stu_fullName = ''Raj Patel'',
          stu_class = ''Class 1-A'', stu_rfidCardId = None, stu_photoUrl = None,
          stu_isActive = True\<rparr>"

definition school :: MemStorage where
  "school = \<lparr>students = [raj], attendance = []\<rparr>"

definition mark_request :: "User option \<Rightarrow> request" where
  "mark_request u =
     \<lparr>req_user = u, q_class = None, q_search = None, req_body = JArray [fullRecord rec0]\<rparr>"

definition uuids_a :: "nat \<Rightarrow> string" where
  "uuids_a k = ''7c9e6679-7425-40de-944b-e07fc1f90ae7''"

definition uuids_b :: "nat \<Rightarrow> string" where
  "uuids_b k = ''16fd2706-8baf-433b-82eb-8c7fada847da''"

section \<open>The service worker's cache of API responses\<close>

text \<open>
  A \<open>GET\<close> request is identified by the path and the query string of its URL. The
  service worker has two caches, the static one filled at installation and the dynamic
  one; \<open>caches.match\<close> looks into them in the order of their creation.
\<close>

record sw_request =
  rq_pathname :: string
  rq_search :: string

type_synonym cache = "string \<times> string \<rightharpoonup> http_response"

record cache_storage =
  static_cache :: cache
  dynamic_cache :: cache

definition rq_key :: "sw_request \<Rightarrow> string \<times> string" where
  "rq_key rq = (rq_pathname rq, rq_search rq)"

definition OFFLINE_APIS :: "string list" where
  "OFFLINE_APIS = [''/api/user'', ''/api/students'', ''/api/classes'', ''/api/attendance/stats'']"

definition caches_match :: "cache_storage \<Rightarrow> sw_request \<Rightarrow> http_response option" where
  "caches_match c rq =
     (case static_cache c (rq_key rq) of
        Some r \<Rightarrow> Some r
      | None \<Rightarrow> dynamic_cache c (rq_key rq))"

text \<open>
  \<open>cache.put\<close> stores the response under the request, replacing an entry that is
  there; it refuses (its promise rejects) a response of status 206 and one with the
  header \<open>Vary: *\<close>. Responses are taken to carry no other \<open>Vary\<close> header.
\<close>

definition cache_put :: "cache \<Rightarrow> sw_request \<Rightarrow> http_response \<Rightarrow> cache" where
  "cache_put ch rq r =
     (if resp_status r = 206 then ch
      else if resp_vary_star r then ch
      else ch(rq_key rq \<mapsto> r))"

text \<open>The reply built when neither the network nor a cache has the data (the JSON body
  is written without its quotation marks).\<close>

definition offline_response :: http_response where
  "offline_response =
     \<lparr>resp_status = 503, resp_vary_star = False,
      resp_body = ''{error: Offline, message: This feature is not available offline}''\<rparr>"

text \<open>
  \<open>handleApiRequest\<close>, called by the \<open>fetch\<close> listener for every \<open>GET\<close> under
  \<open>/api/\<close>; \<open>out\<close> is the outcome of the \<open>fetch\<close> it starts with. The handler
  does not await \<open>cache.put\<close>: a refusal changes neither the caches nor the reply.
\<close>

definition handleApiRequest ::
  "fetch_outcome \<Rightarrow> sw_request \<Rightarrow> cache_storage \<Rightarrow> http_response \<times> cache_storage" where
  "handleApiRequest out rq c =
     (case out of
        Resolved networkResponse \<Rightarrow>
          (networkResponse,
           if ok networkResponse \<and> list_ex (\<lambda>api. prefix api (rq_pathname rq)) OFFLINE_APIS
           then c\<lparr>dynamic_cache := cache_put (dynamic_cache c) rq networkResponse\<rparr>
           else c)
      | NetworkFailure \<Rightarrow>
          (case caches_match c rq of
             Some cachedResponse \<Rightarrow> (cachedResponse, c)
           | None \<Rightarrow> (offline_response, c)))"

definition roster_request :: sw_request where
  "roster_request = \<lparr>rq_pathname = ''/api/students'', rq_search = ''?class=Class%201-A''\<rparr>"

definition old_roster :: http_response where
  "old_roster = \<lparr>resp_status = 200, resp_vary_star = False, resp_body = ''[Raj Patel]''\<rparr>"

definition new_roster :: http_response where
  "new_roster =
     \<lparr>resp_status = 200, resp_vary_star = False, resp_body = ''[Raj Patel, Anita Kumari]''\<rparr>"

definition server_error :: http_response where
  "server_error =
     \<lparr>resp_status = 500, resp_vary_star = False,
      resp_body = ''{message: Failed to fetch students}''\<rparr>"

definition empty_caches :: cache_storage where
  "empty_caches = \<lparr>static_cache = Map.empty, dynamic_cache = Map.empty\<rparr>"

definition stale_caches :: cache_storage where
  "stale_caches =
     \<lparr>static_cache = Map.empty, dynamic_cache = [rq_key roster_request \<mapsto> old_roster]\<rparr>"

subsection \<open>The students cache of OfflineStorage\<close>

record OfflineStudent =
  os_id :: string
  os_rollNumber :: string
  os_fullName :: string
  os_class :: string
  os_photoUrl :: "string option"
  os_rfidCardId :: "string option"
  os_lastUpdated :: nat

text \<open>
  \<open>cacheStudents\<close> works on the object store \<open>studentsCache\<close> (key path \<open>id\<close>, a
  unique index on \<open>rollNumber\<close>); \<open>None\<close> stands for the database not being
  initialised. In one transaction it clears the store and adds every student, stamped
  with the clock (\<open>clock i\<close> is the reading for the \<open>i\<close>-th student). An \<open>add\<close>
  under an id or a roll number already added fails; the method rejects with that error
  and the transaction is aborted, which leaves the store as it was before the call.
\<close>

definition cacheStudents ::
  "(nat \<Rightarrow> nat) \<Rightarrow> OfflineStudent list option \<Rightarrow> OfflineStudent list \<Rightarrow>
   error + OfflineStudent list option" where
  "cacheStudents clock studentsCache studs =
     (case studentsCache of
        None \<Rightarrow> Inl DatabaseNotInitialized
      | Some old \<Rightarrow>
          if distinct (map os_id studs) \<and> distinct (map os_rollNumber studs)
          then Inr (Some (map (\<lambda>(i, x). x\<lparr>os_lastUpdated := clock i\<rparr>) (enumerate 0 studs)))
          else Inl ConstraintError)"

definition cached_raj :: OfflineStudent where
  "cached_raj =
     \<lparr>os_id = ''st-1'', os_rollNumber = ''001'', os_fullName = ''Raj Patel'',
      os_class = ''Class 1-A'', os_photoUrl = None, os_rfidCardId = None,
      os_lastUpdated = 1700000000000\<rparr>"

definition fetched_anita :: OfflineStudent where
  "fetched_anita =
     \<lparr>os_id = ''st-2'', os_rollNumber = ''002'', os_fullName = ''Anita Kumari'',
      os_class = ''Class 1-A'', os_photoUrl = None, os_rfidCardId = None,
      os_lastUpdated = 1700000600000\<rparr>"

lemma store_get_None_iff: "store_get s k = None \<longleftrightarrow> k \<notin> rec_id ` set s"
  by (auto simp: store_get_def find_None_iff)

lemma enqueue_all_fresh:
  "distinct (map (\<lambda>e. rec_id (enqueued_record e)) es) \<Longrightarrow>
   rec_id ` set s \<inter> (\<lambda>e. rec_id (enqueued_record e)) ` set es = {} \<Longrightarrow>
   enqueue_all es (Some s) = Some (s @ map enqueued_record es)"
proof (induction es arbitrary: s)
  case Nil
  then show ?case by simp
next
  case (Cons e es)
  obtain now rnd now' ev where e: "e = (now, rnd, now', ev)"
    by (cases e) auto
  let ?r = "offlineRecord now rnd now' ev"
  have er: "enqueued_record e = ?r"
    by (simp add: e enqueued_record_def)
  from Cons.prems(2) have fresh: "store_get s (rec_id ?r) = None"
    by (auto simp: store_get_None_iff er)
  have step: "storeAttendanceRecord now rnd now' (Some s) ev = Inr (rec_id ?r, Some (s @ [?r]))"
    by (simp add: storeAttendanceRecord_def store_add_def fresh)
  have d: "distinct (map (\<lambda>e. rec_id (enqueued_record e)) es)"
    using Cons.prems(1) by simp
  have "rec_id ` set (s @ [?r]) \<inter> (\<lambda>e. rec_id (enqueued_record e)) ` set es = {}"
    using Cons.prems by (auto simp: er)
  from Cons.IH [OF d this] show ?case
    by (simp add: e step enqueued_record_def)
qed

lemma synced_enqueued_record: "synced (enqueued_record e) = False"
  by (cases e) (simp add: enqueued_record_def offlineRecord_def)

section \<open>Enqueueing\<close>

text \<open>
  C1 (as amended). \<open>storeAttendanceRecord\<close> never overwrites: every call whose generated
  id is not yet a key appends one new record and leaves the stored records as they are,
  also when a stored record has the same student, date and period. For a sequence of
  calls with pairwise distinct fresh ids, the store is the old store followed by one
  record per call, so the number of unsynced records it holds grows by the number of
  calls.
\<close>

theorem enqueue_all_appends:
  assumes "distinct (map (\<lambda>e. rec_id (enqueued_record e)) es)"
    and "rec_id ` set s \<inter> (\<lambda>e. rec_id (enqueued_record e)) ` set es = {}"
  shows "enqueue_all es (Some s) = Some (s @ map enqueued_record es) \<and>
         length (filter (\<lambda>r. synced r = False) (stored (enqueue_all es (Some s)))) =
           length (filter (\<lambda>r. synced r = False) s) + length es"
proof -
  have eq: "enqueue_all es (Some s) = Some (s @ map enqueued_record es)"
    using assms by (rule enqueue_all_fresh)
  have "filter (\<lambda>r. synced r = False) (map enqueued_record es) = map enqueued_record es"
    by (induction es) (simp_all add: synced_enqueued_record)
  then show ?thesis
    by (simp add: eq stored_def)
qed

lemmas eval_defs =
  enqueued_record_def offlineRecord_def generateId_def digit_def mark_event_def
  storeAttendanceRecord_def store_add_def store_get_def store_put_def stored_def
  markRecordSynced_def

text \<open>The theorem at two calls for the same student, date and period.\<close>

theorem enqueue_all_appends_witness:
  "distinct (map (\<lambda>e. rec_id (enqueued_record e)) dup_enqueues) \<and>
   rec_id ` set [] \<inter> (\<lambda>e. rec_id (enqueued_record e)) ` set dup_enqueues = {} \<and>
   enqueue_all dup_enqueues (Some []) = Some (map enqueued_record dup_enqueues) \<and>
   length (filter (\<lambda>r. synced r = False) (stored (enqueue_all dup_enqueues (Some [])))) = 2"
proof -
  have d: "distinct (map (\<lambda>e. rec_id (enqueued_record e)) dup_enqueues)"
    by (simp add: dup_enqueues_def eval_defs)
  have f: "rec_id ` set [] \<inter> (\<lambda>e. rec_id (enqueued_record e)) ` set dup_enqueues = {}"
    by simp
  have h: "length dup_enqueues = 2"
    by (simp add: dup_enqueues_def)
  have t1: "enqueue_all dup_enqueues (Some []) = Some (map enqueued_record dup_enqueues)"
    using enqueue_all_appends [OF d f] by simp
  have "length (filter (\<lambda>r. synced r = False) (stored (enqueue_all dup_enqueues (Some [])))) =
          length (filter (\<lambda>r. synced r = False) ([]::OfflineAttendanceRecord list)) +
          length dup_enqueues"
    using enqueue_all_appends [OF d f] by (rule conjunct2)
  then have t2: "length (filter (\<lambda>r. synced r = False) (stored (enqueue_all dup_enqueues (Some [])))) = 2"
    by (simp add: h)
  from d f t1 t2 show ?thesis
    by blast
qed

text \<open>
  C1 as stated fails: after two calls for the same (student, date, period) the store
  holds two unsynced records with that combination, more than the one distinct
  combination enqueued.
\<close>

theorem duplicate_enqueue_counterexample:
  "map (\<lambda>r. (studentId r, date r, period r, synced r)) (stored (enqueue_all dup_enqueues (Some []))) =
     [(Some ''s1'', Some ''2024-01-15'', Some ''1'', False),
      (Some ''s1'', Some ''2024-01-15'', Some ''1'', False)] \<and>
   distinct_keys dup_enqueues = 1 \<and>
   \<not> length (stored (enqueue_all dup_enqueues (Some []))) \<le> distinct_keys dup_enqueues"
  by (simp add: dup_enqueues_def distinct_keys_def event_key_def eval_defs)

text \<open>
  C6 (as amended). \<open>storeAttendanceRecord\<close> checks no field of the event. It rejects
  exactly when the database is not initialised (\<open>DatabaseNotInitialized\<close>) or the
  generated id is already a key (\<open>ConstraintError\<close>); otherwise it appends to the store
  one record that carries the fields of the event exactly as given, whatever they are,
  with the generated id, the clock reading and \<open>synced = false\<close>, and resolves to the
  generated id.
\<close>

theorem storeAttendanceRecord_rejections:
  "(storeAttendanceRecord now rnd now' d ev = Inl e) =
     (d = None \<and> e = DatabaseNotInitialized \<or>
      (\<exists>s. d = Some s \<and> generateId now rnd \<in> rec_id ` set s \<and> e = ConstraintError)) \<and>
   (storeAttendanceRecord now rnd now' (Some s) ev =
      Inr (generateId now rnd,
           Some (s @ [\<lparr>rec_id = generateId now rnd,
                         studentId = ev_studentId ev, teacherId = ev_teacherId ev,
                         class_name = ev_class ev, subject = ev_subject ev,
                         period = ev_period ev, status = ev_status ev,
                         method_name = ev_method ev, date = ev_date ev,
                         timestamp = now', synced = False\<rparr>]))) =
     (generateId now rnd \<notin> rec_id ` set s)"
proof -
  have id: "rec_id (offlineRecord now rnd now' ev) = generateId now rnd"
    by (simp add: offlineRecord_def)
  have first: "(storeAttendanceRecord now rnd now' d ev = Inl e) =
     (d = None \<and> e = DatabaseNotInitialized \<or>
      (\<exists>s. d = Some s \<and> generateId now rnd \<in> rec_id ` set s \<and> e = ConstraintError))"
  proof (cases d)
    case None
    then show ?thesis
      by (auto simp: storeAttendanceRecord_def)
  next
    case (Some s0)
    show ?thesis
    proof (cases "store_get s0 (generateId now rnd)")
      case None
      then have "generateId now rnd \<notin> rec_id ` set s0"
        by (simp add: store_get_None_iff)
      with Some None show ?thesis
        by (simp add: storeAttendanceRecord_def store_add_def id)
    next
      case (Some old)
      then have "generateId now rnd \<in> rec_id ` set s0"
        using store_get_None_iff [of s0 "generateId now rnd"] by simp
      with \<open>d = Some s0\<close> Some show ?thesis
        by (auto simp: storeAttendanceRecord_def store_add_def id)
    qed
  qed
  have second: "(storeAttendanceRecord now rnd now' (Some s) ev =
      Inr (generateId now rnd, Some (s @ [offlineRecord now rnd now' ev]))) =
     (generateId now rnd \<notin> rec_id ` set s)"
  proof (cases "store_get s (generateId now rnd)")
    case None
    then have "generateId now rnd \<notin> rec_id ` set s"
      by (simp add: store_get_None_iff)
    with None show ?thesis
      by (simp add: storeAttendanceRecord_def store_add_def id)
  next
    case (Some old)
    then have "generateId now rnd \<in> rec_id ` set s"
      using store_get_None_iff [of s "generateId now rnd"] by simp
    with Some show ?thesis
      by (simp add: storeAttendanceRecord_def store_add_def id)
  qed
  from first second show ?thesis
    by (simp add: offlineRecord_def)
qed

text \<open>
  C6 as stated fails: an event with none of student, class, date, status and method is
  accepted and stored.
\<close>

theorem storeAttendanceRecord_no_validation_counterexample:
  "storeAttendanceRecord 1700000000000 ''k3j9x0a1b'' 1700000000000 (Some []) empty_event =
     Inr (''offline_1700000000000_k3j9x0a1b'',
          Some [\<lparr>rec_id = ''offline_1700000000000_k3j9x0a1b'',
                 studentId = None, teacherId = None, class_name = None, subject = None,
                 period = None, status = None, method_name = None, date = None,
                 timestamp = 1700000000000, synced = False\<rparr>])"
  by (simp add: empty_event_def eval_defs)

section \<open>The pending view\<close>

lemma index_synced_getAll_boolean: "index_synced_getAll s (JBoolean b) = Inl DataError"
  by (simp add: index_synced_getAll_def valid_key_def)

text \<open>
  C9. \<open>getPendingAttendanceRecords\<close> queries the index \<open>synced\<close> with the boolean
  \<open>false\<close>, which is not a valid key: on every initialised database the query throws
  and the method rejects with \<open>DataError\<close>, so it returns no list of pending records,
  in the order of creation or in any other. With it, \<open>syncWithServer\<close> rejects before
  its loop, and \<open>syncAttendanceData\<close> ends without a request and leaves the store as
  it is.
\<close>

theorem getPendingAttendanceRecords_rejects:
  "getPendingAttendanceRecords (Some s) = Inl DataError \<and>
   syncWithServer net (Some s) = Inl DataError \<and>
   sw_getPendingAttendanceRecords s = Inl DataError \<and>
   syncAttendanceData net s = \<lparr>sw_db = s, sw_sent = []\<rparr>"
  by (simp add: getPendingAttendanceRecords_def syncWithServer_def
      sw_getPendingAttendanceRecords_def syncAttendanceData_def index_synced_getAll_boolean)

section \<open>Reconciliation passes\<close>

lemma map_rec_id_mark_set [simp]: "map rec_id (mark_set A s) = map rec_id s"
  by (simp add: mark_set_def)

lemma mark_set_empty [simp]: "mark_set {} s = s"
  by (simp add: mark_set_def)

lemma mark_set_mark_set: "mark_set A (mark_set B s) = mark_set (A \<union> B) s"
  by (auto simp: mark_set_def)

lemma store_get_Some_D: "store_get s k = Some r \<Longrightarrow> r \<in> set s \<and> rec_id r = k"
  by (auto simp: store_get_def find_Some_iff)

lemma store_get_member:
  "distinct (map rec_id s) \<Longrightarrow> r \<in> set s \<Longrightarrow> store_get s (rec_id r) = Some r"
  by (induction s) (auto simp: store_get_def)

lemma store_get_mark_set:
  "store_get (mark_set A s) k =
     map_option (\<lambda>x. if k \<in> A then x\<lparr>synced := True\<rparr> else x) (store_get s k)"
  by (induction s) (auto simp: store_get_def mark_set_def)

lemma store_put_synced:
  assumes "distinct (map rec_id s)" and "store_get s k = Some r"
  shows "store_put s (r\<lparr>synced := True\<rparr>) = mark_set {k} s"
proof -
  from assms(2) have r: "r \<in> set s" "rec_id r = k"
    by (auto dest: store_get_Some_D)
  have same: "x = r" if "x \<in> set s" "rec_id x = k" for x
    using assms(1) r that by (auto simp: distinct_map dest: inj_onD)
  have "map (\<lambda>x. if rec_id x = k then r\<lparr>synced := True\<rparr> else x) s =
        map (\<lambda>x. if rec_id x \<in> {k} then x\<lparr>synced := True\<rparr> else x) s"
    by (rule map_cong) (auto dest: same)
  then show ?thesis
    using assms(2) r by (simp add: store_put_def mark_set_def)
qed

lemma markRecordSynced_present:
  assumes "distinct (map rec_id s)" and "k \<in> rec_id ` set s"
  shows "markRecordSynced (Some s) k = Inr (Some (mark_set {k} s))"
proof -
  from assms(2) obtain r where "store_get s k = Some r"
    using store_get_None_iff [of s k] by (cases "store_get s k") auto
  with assms(1) show ?thesis
    by (simp add: markRecordSynced_def store_put_synced)
qed

lemma sync_step_db:
  assumes "distinct (map rec_id t)" and "rec_id r \<in> rec_id ` set t" and "st_db st = Some t"
  shows "st_db (sync_step out r st) =
           Some (mark_set (if acked out then {rec_id r} else {}) t)"
  using assms
  by (cases out) (simp_all add: sync_step_def acked_def markRecordSynced_present)

lemma sync_records_db:
  assumes "distinct (map rec_id t)" and "rec_id ` set rs \<subseteq> rec_id ` set t"
    and "st_db st = Some t"
  shows "st_db (sync_records net k rs st) = Some (mark_set (acked_ids net k rs) t)"
  using assms
proof (induction rs arbitrary: k st t)
  case Nil
  then show ?case by simp
next
  case (Cons r rs)
  let ?A = "if acked (net k) then {rec_id r} else {}"
  have db1: "st_db (sync_step (net k) r st) = Some (mark_set ?A t)"
    using Cons.prems by (intro sync_step_db) auto
  have d1: "distinct (map rec_id (mark_set ?A t))"
    using Cons.prems(1) by simp
  have sub: "rec_id ` set rs \<subseteq> rec_id ` set (mark_set ?A t)"
  proof -
    have "rec_id ` set (mark_set ?A t) = set (map rec_id (mark_set ?A t))"
      by (simp only: set_map)
    also have "\<dots> = rec_id ` set t"
      by simp
    finally show ?thesis
      using Cons.prems(2) by auto
  qed
  have "st_db (sync_records net (Suc k) rs (sync_step (net k) r st)) =
          Some (mark_set (acked_ids net (Suc k) rs) (mark_set ?A t))"
    by (rule Cons.IH [OF d1 sub db1])
  then show ?case
    by (auto simp: mark_set_mark_set)
qed

lemma sync_records_sent:
  "st_sent (sync_records net k rs st) =
     st_sent st @ map (\<lambda>(i, r). ([apiRecord r], net i)) (enumerate k rs)"
proof (induction rs arbitrary: k st)
  case Nil
  then show ?case by simp
next
  case (Cons r rs)
  have "st_sent (sync_step (net k) r st) = st_sent st @ [([apiRecord r], net k)]"
    by (cases "net k") (simp_all add: sync_step_def split: sum.splits)
  with Cons.IH [of "Suc k" "sync_step (net k) r st"] show ?case
    by simp
qed

lemma acked_ids_nth:
  "i < length rs \<Longrightarrow> acked (net (k + i)) \<Longrightarrow> rec_id (rs ! i) \<in> acked_ids net k rs"
proof (induction rs arbitrary: k i)
  case Nil
  then show ?case by simp
next
  case (Cons r rs)
  show ?case
  proof (cases i)
    case 0
    with Cons.prems show ?thesis by simp
  next
    case (Suc j)
    with Cons.prems have "rec_id (rs ! j) \<in> acked_ids net (Suc k) rs"
      by (intro Cons.IH) auto
    with Suc show ?thesis by simp
  qed
qed

lemma acked_ids_D:
  "x \<in> acked_ids net k rs \<Longrightarrow> \<exists>i < length rs. rec_id (rs ! i) = x \<and> acked (net (k + i))"
proof (induction rs arbitrary: k)
  case Nil
  then show ?case by simp
next
  case (Cons r rs)
  show ?case
  proof (cases "acked (net k) \<and> x = rec_id r")
    case True
    then have "0 < length (r # rs) \<and> rec_id ((r # rs) ! 0) = x \<and> acked (net (k + 0))"
      by simp
    then show ?thesis by blast
  next
    case False
    with Cons.prems have "x \<in> acked_ids net (Suc k) rs"
      by (auto split: if_splits)
    from Cons.IH [OF this] obtain i where "i < length rs" "rec_id (rs ! i) = x"
      "acked (net (Suc k + i))" by blast
    then have "Suc i < length (r # rs) \<and> rec_id ((r # rs) ! Suc i) = x \<and> acked (net (k + Suc i))"
      by simp
    then show ?thesis by blast
  qed
qed

lemma sync_records_not_acked:
  assumes "\<forall>i. \<not> acked (net i)"
  shows "sync_records net k rs st =
           st\<lparr>st_failed := st_failed st + length rs,
              st_sent := st_sent st @ map (\<lambda>(i, r). ([apiRecord r], net i)) (enumerate k rs)\<rparr>"
proof (induction rs arbitrary: k st)
  case Nil
  then show ?case by simp
next
  case (Cons r rs)
  have "\<not> acked (net k)"
    using assms by simp
  then have "sync_step (net k) r st =
      st\<lparr>st_failed := st_failed st + 1, st_sent := st_sent st @ [([apiRecord r], net k)]\<rparr>"
    by (cases "net k") (simp_all add: sync_step_def acked_def)
  with Cons.IH [of "Suc k"] show ?case
    by simp
qed

lemma sw_sync_records_sent:
  "sw_sent (sw_sync_records net k rs st) =
     sw_sent st @ map (\<lambda>(i, r). ([fullRecord r], net i)) (enumerate k rs)"
proof (induction rs arbitrary: k st)
  case Nil
  then show ?case by simp
next
  case (Cons r rs)
  have "sw_sent (sw_sync_step (net k) r st) = sw_sent st @ [([fullRecord r], net k)]"
    by (cases "net k") (simp_all add: sw_sync_step_def)
  with Cons.IH [of "Suc k" "sw_sync_step (net k) r st"] show ?case
    by simp
qed

lemma sync_step_same_db:
  assumes "st_db st = Some (sw_db sw)"
  shows "st_db (sync_step out r st) = Some (sw_db (sw_sync_step out r sw))"
  using assms
  by (cases out; cases "store_get (sw_db sw) (rec_id r)")
     (simp_all add: sync_step_def sw_sync_step_def markRecordSynced_def sw_markRecordSynced_def)

lemma sync_records_same_db:
  "st_db st = Some (sw_db sw) \<Longrightarrow>
   st_db (sync_records net k rs st) = Some (sw_db (sw_sync_records net k rs sw))"
proof (induction rs arbitrary: k st sw)
  case Nil
  then show ?case by simp
next
  case (Cons r rs)
  from Cons.prems have "st_db (sync_step (net k) r st) = Some (sw_db (sw_sync_step (net k) r sw))"
    by (rule sync_step_same_db)
  from Cons.IH [OF this] show ?case
    by simp
qed

lemma start_state_simps [simp]:
  "st_db (start_state s) = Some s" "st_sent (start_state s) = []"
  "st_success (start_state s) = 0" "st_failed (start_state s) = 0"
  by (simp_all add: start_state_def)

lemma loop_db:
  assumes "distinct (map rec_id s)" and "set rs \<subseteq> set s"
  shows "st_db (sync_records net 0 rs (start_state s)) = Some (mark_set (acked_ids net 0 rs) s)"
proof -
  have "rec_id ` set rs \<subseteq> rec_id ` set s"
    using assms(2) by auto
  from sync_records_db [OF assms(1) this, of "start_state s" net 0] show ?thesis
    by simp
qed

lemma loop_sent:
  "st_sent (sync_records net 0 rs (start_state s)) =
     map (\<lambda>(i, r). ([apiRecord r], net i)) (enumerate 0 rs)"
  by (simp add: sync_records_sent)

lemma map_fst_sent:
  "map fst (map (\<lambda>(i, r). ([f r], net i)) (enumerate k rs)) = map (\<lambda>r. [f r]) rs"
  by (induction rs arbitrary: k) simp_all

lemma map_fst_comp_sent:
  "map (fst \<circ> (\<lambda>(i, r). ([f r], net i))) (enumerate k rs) = map (\<lambda>r. [f r]) rs"
  by (induction rs arbitrary: k) simp_all

lemma map_snd_comp_sent:
  "map (snd \<circ> (\<lambda>(i, r). ([f r], net i))) (enumerate k rs) = map net [k..<k + length rs]"
  by (induction rs arbitrary: k) (simp_all add: upt_rec)

lemma sent_nth:
  "i < length rs \<Longrightarrow>
   map (\<lambda>(i, r). ([f r], net i)) (enumerate k rs) ! i = ([f (rs ! i)], net (k + i))"
  by (simp add: nth_enumerate_eq)

lemma distinct_same_id:
  "distinct (map rec_id s) \<Longrightarrow> x \<in> set s \<Longrightarrow> y \<in> set s \<Longrightarrow> rec_id x = rec_id y \<Longrightarrow> x = y"
  by (auto simp: distinct_map dest: inj_onD)

section \<open>What the loop submits\<close>

text \<open>
  C2 (as amended). For each record of the batch it is given, in turn, the loop of
  \<open>syncWithServer\<close> posts a one-element array whose element holds the record's
  studentId, class, subject, period, status, method and date and nothing else: no id,
  no teacherId, no timestamp and no synced flag. For any stored record that the loop
  turns from unsynced to synced, a request holding that record's seven fields was made
  and answered with a 2xx status.
\<close>

theorem sync_records_submissions:
  assumes "distinct (map rec_id s)" and "set rs \<subseteq> set s"
  shows "map fst (st_sent (sync_records net 0 rs (start_state s))) =
           map (\<lambda>r. [\<lparr>b_id = None, b_studentId = studentId r, b_teacherId = None,
                        b_class = class_name r, b_subject = subject r, b_period = period r,
                        b_status = status r, b_method = method_name r, b_date = date r,
                        b_timestamp = None, b_synced = None\<rparr>]) rs \<and>
         (\<forall>r \<in> set s. \<forall>t r'.
            synced r = False \<and> st_db (sync_records net 0 rs (start_state s)) = Some t \<and>
            store_get t (rec_id r) = Some r' \<and> synced r' = True \<longrightarrow>
            (\<exists>resp. ([\<lparr>b_id = None, b_studentId = studentId r, b_teacherId = None,
                          b_class = class_name r, b_subject = subject r, b_period = period r,
                          b_status = status r, b_method = method_name r, b_date = date r,
                          b_timestamp = None, b_synced = None\<rparr>], Resolved resp)
                      \<in> set (st_sent (sync_records net 0 rs (start_state s))) \<and> ok resp))"
proof -
  let ?st = "sync_records net 0 rs (start_state s)"
  let ?A = "acked_ids net 0 rs"
  have sent: "st_sent ?st = map (\<lambda>(i, r). ([apiRecord r], net i)) (enumerate 0 rs)"
    by (rule loop_sent)
  have bodies: "map fst (st_sent ?st) = map (\<lambda>r. [apiRecord r]) rs"
    by (simp only: sent map_fst_sent)
  have db: "st_db ?st = Some (mark_set ?A s)"
    using assms by (rule loop_db)
  have delivered: "\<exists>resp. ([apiRecord r], Resolved resp) \<in> set (st_sent ?st) \<and> ok resp"
    if r: "r \<in> set s" "synced r = False" and t: "st_db ?st = Some t"
      "store_get t (rec_id r) = Some r'" "synced r' = True" for r t r'
  proof -
    have "store_get s (rec_id r) = Some r"
      using assms(1) r(1) by (rule store_get_member)
    with db t have "r' = (if rec_id r \<in> ?A then r\<lparr>synced := True\<rparr> else r)"
      by (simp add: store_get_mark_set)
    with r(2) t(3) have "rec_id r \<in> ?A"
      by (auto split: if_splits)
    then obtain i where i: "i < length rs" "rec_id (rs ! i) = rec_id r" "acked (net (0 + i))"
      using acked_ids_D by blast
    have "rs ! i \<in> set rs"
      using i(1) by (rule nth_mem)
    then have "rs ! i \<in> set s"
      using assms(2) by auto
    with assms(1) r(1) i(2) have same: "rs ! i = r"
      by (auto dest: distinct_same_id)
    from i(3) obtain resp where resp: "net i = Resolved resp" "ok resp"
      by (cases "net i") (auto simp: acked_def)
    have "st_sent ?st ! i = ([apiRecord (rs ! i)], net (0 + i))"
      unfolding sent using i(1) by (rule sent_nth)
    then have "st_sent ?st ! i = ([apiRecord r], Resolved resp)"
      using same resp(1) by simp
    moreover have "i < length (st_sent ?st)"
      using i(1) by (simp add: sent)
    ultimately have "([apiRecord r], Resolved resp) \<in> set (st_sent ?st)"
      by (metis nth_mem)
    with resp(2) show ?thesis
      by blast
  qed
  from bodies delivered show ?thesis
    unfolding apiRecord_def by blast
qed

lemma rec_ids_differ: "rec_id rec0 \<noteq> rec_id rec1"
  by (simp add: rec0_def rec1_def)

lemma pass_first_ok_eval:
  "pass_first_ok =
     \<lparr>st_db = Some [rec0\<lparr>synced := True\<rparr>, rec1], st_success = 1, st_failed = 1,
      st_sent = [([apiRecord rec0], Resolved created), ([apiRecord rec1], NetworkFailure)]\<rparr>"
  using rec_ids_differ
  by (simp add: pass_first_ok_def start_state_def sync_step_def markRecordSynced_def
      store_get_def store_put_def ok_def created_def first_ok_def)

text \<open>
  The theorem at a store of two unsynced records, both in the batch, the first request
  acknowledged and the second failing.
\<close>

theorem sync_records_submissions_witness:
  "distinct (map rec_id [rec0, rec1]) \<and> set [rec0, rec1] \<subseteq> set [rec0, rec1] \<and>
   map fst (st_sent (sync_records first_ok 0 [rec0, rec1] (start_state [rec0, rec1]))) =
     [[\<lparr>b_id = None, b_studentId = Some ''s1'', b_teacherId = None,
        b_class = Some ''Class 1-A'', b_subject = None, b_period = Some ''1'',
        b_status = Some ''present'', b_method = Some ''manual'',
        b_date = Some ''2024-01-15'', b_timestamp = None, b_synced = None\<rparr>],
      [\<lparr>b_id = None, b_studentId = Some ''s2'', b_teacherId = None,
        b_class = Some ''Class 1-A'', b_subject = None, b_period = Some ''1'',
        b_status = Some ''absent'', b_method = Some ''manual'',
        b_date = Some ''2024-01-15'', b_timestamp = None, b_synced = None\<rparr>]] \<and>
   (\<exists>resp. ([\<lparr>b_id = None, b_studentId = Some ''s1'', b_teacherId = None,
                b_class = Some ''Class 1-A'', b_subject = None, b_period = Some ''1'',
                b_status = Some ''present'', b_method = Some ''manual'',
                b_date = Some ''2024-01-15'', b_timestamp = None, b_synced = None\<rparr>],
              Resolved resp)
            \<in> set (st_sent (sync_records first_ok 0 [rec0, rec1] (start_state [rec0, rec1]))) \<and>
          ok resp)"
proof -
  let ?st = "sync_records first_ok 0 [rec0, rec1] (start_state [rec0, rec1])"
  have d: "distinct (map rec_id [rec0, rec1])"
    using rec_ids_differ by simp
  have sub: "set [rec0, rec1] \<subseteq> set [rec0, rec1]"
    by simp
  note inst = sync_records_submissions [OF d sub, of first_ok]
  have st: "?st =
      \<lparr>st_db = Some [rec0\<lparr>synced := True\<rparr>, rec1], st_success = 1, st_failed = 1,
       st_sent = [([apiRecord rec0], Resolved created), ([apiRecord rec1], NetworkFailure)]\<rparr>"
    using pass_first_ok_eval by (simp only: pass_first_ok_def)
  have bodies: "map fst (st_sent ?st) =
      map (\<lambda>r. [\<lparr>b_id = None, b_studentId = studentId r, b_teacherId = None,
                   b_class = class_name r, b_subject = subject r, b_period = period r,
                   b_status = status r, b_method = method_name r, b_date = date r,
                   b_timestamp = None, b_synced = None\<rparr>]) [rec0, rec1]"
    using inst by (rule conjunct1)
  have db: "st_db ?st = Some [rec0\<lparr>synced := True\<rparr>, rec1]"
    by (simp only: st sync_state.select_convs)
  have pre: "rec0 \<in> set [rec0, rec1]" "synced rec0 = False"
    "store_get [rec0\<lparr>synced := True\<rparr>, rec1] (rec_id rec0) = Some (rec0\<lparr>synced := True\<rparr>)"
    "synced (rec0\<lparr>synced := True\<rparr>) = True"
    by (simp_all add: store_get_def) (simp add: rec0_def)
  have "\<exists>resp. ([\<lparr>b_id = None, b_studentId = studentId rec0, b_teacherId = None,
                   b_class = class_name rec0, b_subject = subject rec0, b_period = period rec0,
                   b_status = status rec0, b_method = method_name rec0, b_date = date rec0,
                   b_timestamp = None, b_synced = None\<rparr>], Resolved resp)
          \<in> set (st_sent ?st) \<and> ok resp"
    using inst db pre by blast
  with d sub bodies show ?thesis
    by (simp add: rec0_def rec1_def)
qed

text \<open>
  C2 as stated fails: the element the loop posts for a record has no id (nor teacherId,
  timestamp or synced flag).
\<close>

theorem sync_records_payload_counterexample:
  "sync_records all_ok 0 [rec0] (start_state [rec0]) =
     \<lparr>st_db = Some [rec0\<lparr>synced := True\<rparr>], st_success = 1, st_failed = 0,
      st_sent =
        [([\<lparr>b_id = None, b_studentId = Some ''s1'', b_teacherId = None,
            b_class = Some ''Class 1-A'', b_subject = None, b_period = Some ''1'',
            b_status = Some ''present'', b_method = Some ''manual'',
            b_date = Some ''2024-01-15'', b_timestamp = None, b_synced = None\<rparr>],
          Resolved created)]\<rparr>"
  by (simp add: start_state_def sync_step_def markRecordSynced_def store_get_def store_put_def
      ok_def created_def all_ok_def apiRecord_def rec0_def)

section \<open>Acknowledged records\<close>

text \<open>
  C4 (as amended). When the request for a record of the batch is answered with a 2xx
  status, the loop of \<open>syncWithServer\<close> sets the record's \<open>synced\<close> flag through
  \<open>markRecordSynced\<close>, which writes the record back under the same id: the record stays
  in the store, flagged as synced, and the store holds the same ids after the loop as
  before. Nothing is deleted.
\<close>

theorem acknowledged_record_stays_stored:
  assumes "distinct (map rec_id s)" and "set rs \<subseteq> set s"
    and "i < length rs"
    and "net i = Resolved resp" and "ok resp"
  shows "\<exists>t. st_db (sync_records net 0 rs (start_state s)) = Some t \<and>
           map rec_id t = map rec_id s \<and>
           store_get t (rec_id (rs ! i)) = Some ((rs ! i)\<lparr>synced := True\<rparr>)"
proof -
  let ?A = "acked_ids net 0 rs"
  let ?p = "rs ! i"
  let ?t = "mark_set ?A s"
  have db: "st_db (sync_records net 0 rs (start_state s)) = Some ?t"
    using assms(1,2) by (rule loop_db)
  have "acked (net (0 + i))"
    using assms(4,5) by (simp add: acked_def)
  with assms(3) have inA: "rec_id ?p \<in> ?A"
    by (rule acked_ids_nth)
  have "?p \<in> set rs"
    using assms(3) by (rule nth_mem)
  then have "?p \<in> set s"
    using assms(2) by auto
  with assms(1) have "store_get s (rec_id ?p) = Some ?p"
    by (rule store_get_member)
  with inA have "store_get ?t (rec_id ?p) = Some (?p\<lparr>synced := True\<rparr>)"
    by (simp add: store_get_mark_set)
  with db show ?thesis
    by simp
qed

theorem acknowledged_record_stays_stored_witness:
  "distinct (map rec_id [rec0, rec1]) \<and> set [rec0, rec1] \<subseteq> set [rec0, rec1] \<and>
   0 < length [rec0, rec1] \<and> first_ok 0 = Resolved created \<and> ok created \<and>
   (\<exists>t. st_db (sync_records first_ok 0 [rec0, rec1] (start_state [rec0, rec1])) = Some t \<and>
        map rec_id t = map rec_id [rec0, rec1] \<and>
        store_get t (rec_id rec0) = Some (rec0\<lparr>synced := True\<rparr>))"
proof -
  have d: "distinct (map rec_id [rec0, rec1])"
    using rec_ids_differ by simp
  have sub: "set [rec0, rec1] \<subseteq> set [rec0, rec1]"
    by simp
  have i: "0 < length [rec0, rec1]"
    by simp
  have n: "first_ok 0 = Resolved created"
    by (simp add: first_ok_def)
  have k: "ok created"
    by (simp add: ok_def created_def)
  from acknowledged_record_stays_stored
    [of "[rec0, rec1]" "[rec0, rec1]" 0 first_ok created, OF d sub i n k]
  have "\<exists>t. st_db (sync_records first_ok 0 [rec0, rec1] (start_state [rec0, rec1])) = Some t \<and>
        map rec_id t = map rec_id [rec0, rec1] \<and>
        store_get t (rec_id rec0) = Some (rec0\<lparr>synced := True\<rparr>)"
    by simp
  with d sub i n k show ?thesis
    by blast
qed

text \<open>
  C4 as stated fails: after the loop has run on both records with every request
  acknowledged, both are still in the local store, flagged as synced; so is a record
  after \<open>markRecordSynced\<close> alone.
\<close>

theorem acknowledged_record_not_deleted_counterexample:
  "st_db (sync_records all_ok 0 [rec0, rec1] (start_state [rec0, rec1])) =
     Some [rec0\<lparr>synced := True\<rparr>, rec1\<lparr>synced := True\<rparr>] \<and>
   markRecordSynced (Some [rec0, rec1]) ''offline_1700000000000_k3j9x0a1b'' =
     Inr (Some [rec0\<lparr>synced := True\<rparr>, rec1])"
  using rec_ids_differ
  by (simp add: start_state_def sync_step_def markRecordSynced_def store_get_def store_put_def
      ok_def created_def all_ok_def) (simp add: rec0_def rec1_def)

section \<open>Failed submissions\<close>

lemma sync_step_not_acked:
  assumes "\<not> acked out"
  shows "sync_step out r st =
           st\<lparr>st_failed := st_failed st + 1, st_sent := st_sent st @ [([apiRecord r], out)]\<rparr>"
  using assms by (cases out) (simp_all add: sync_step_def acked_def)

lemma repeat_loop_all_failed:
  "\<forall>net \<in> set nets. \<forall>i. \<not> acked (net i) \<Longrightarrow>
   st_db (repeat_loop nets rs st) = st_db st \<and>
   st_success (repeat_loop nets rs st) = st_success st \<and>
   st_failed (repeat_loop nets rs st) = st_failed st + length nets * length rs"
proof (induction nets arbitrary: st)
  case Nil
  then show ?case by simp
next
  case (Cons net nets)
  have one: "sync_records net 0 rs st =
      st\<lparr>st_failed := st_failed st + length rs,
         st_sent := st_sent st @ map (\<lambda>(i, r). ([apiRecord r], net i)) (enumerate 0 rs)\<rparr>"
    using Cons.prems by (intro sync_records_not_acked) simp
  have "\<forall>net \<in> set nets. \<forall>i. \<not> acked (net i)"
    using Cons.prems by simp
  from Cons.IH [OF this, of "sync_records net 0 rs st"] show ?case
    by (simp add: one)
qed

lemma not_acked_all_fail: "\<not> acked (all_fail i)"
  by (simp add: acked_def all_fail_def)

text \<open>
  C5 (as amended). A submission that fails (a rejected \<open>fetch\<close> or a response that is
  not 2xx) changes nothing in the store: the loop only adds one to the \<open>failed\<close> number
  that the pass returns. In a batch of records with distinct ids, a record whose
  submission fails is in the store afterwards exactly as it was, whatever happens to
  the other records. There is no attempts counter, no \<open>failed\<close> state and no ceiling:
  however often the loop runs on a batch with every submission failing, the database
  stays as it was.
\<close>

theorem failed_submission_changes_nothing:
  "(\<not> acked out \<longrightarrow>
      st_db (sync_step out r st) = st_db st \<and>
      st_success (sync_step out r st) = st_success st \<and>
      st_failed (sync_step out r st) = st_failed st + 1) \<and>
   (distinct (map rec_id s) \<and> set rs \<subseteq> set s \<and> distinct (map rec_id rs) \<and>
    i < length rs \<and> \<not> acked (net i) \<longrightarrow>
      (\<exists>t. st_db (sync_records net 0 rs (start_state s)) = Some t \<and>
           store_get t (rec_id (rs ! i)) = Some (rs ! i))) \<and>
   ((\<forall>net \<in> set nets. \<forall>i. \<not> acked (net i)) \<longrightarrow>
      st_db (repeat_loop nets rs st) = st_db st \<and>
      st_success (repeat_loop nets rs st) = st_success st \<and>
      st_failed (repeat_loop nets rs st) = st_failed st + length nets * length rs)"
proof -
  have step: "st_db (sync_step out r st) = st_db st \<and>
      st_success (sync_step out r st) = st_success st \<and>
      st_failed (sync_step out r st) = st_failed st + 1" if "\<not> acked out"
    by (simp add: sync_step_not_acked [OF that])
  have kept: "\<exists>t. st_db (sync_records net 0 rs (start_state s)) = Some t \<and>
           store_get t (rec_id (rs ! i)) = Some (rs ! i)"
    if d: "distinct (map rec_id s)" and sub: "set rs \<subseteq> set s"
      and drs: "distinct (map rec_id rs)" and i: "i < length rs" and fail: "\<not> acked (net i)"
  proof -
    let ?A = "acked_ids net 0 rs"
    have db: "st_db (sync_records net 0 rs (start_state s)) = Some (mark_set ?A s)"
      using d sub by (rule loop_db)
    have notin: "rec_id (rs ! i) \<notin> ?A"
    proof
      assume "rec_id (rs ! i) \<in> ?A"
      then obtain j where j: "j < length rs" "rec_id (rs ! j) = rec_id (rs ! i)"
        "acked (net (0 + j))"
        using acked_ids_D by blast
      have "(map rec_id rs ! j = map rec_id rs ! i) = (j = i)"
        using drs i j(1) by (intro nth_eq_iff_index_eq) simp_all
      with i j(1,2) have "j = i"
        by simp
      with j(3) fail show False
        by simp
    qed
    have "rs ! i \<in> set s"
      using i sub by (auto dest: nth_mem)
    with d have "store_get s (rec_id (rs ! i)) = Some (rs ! i)"
      by (rule store_get_member)
    with notin have "store_get (mark_set ?A s) (rec_id (rs ! i)) = Some (rs ! i)"
      by (simp add: store_get_mark_set)
    with db show ?thesis
      by simp
  qed
  from step kept repeat_loop_all_failed show ?thesis
    by blast
qed

text \<open>
  The theorem at a failing submission of one record, at a batch of two whose second
  submission fails, and at eleven runs of the loop in which every submission fails.
\<close>

theorem failed_submission_changes_nothing_witness:
  "acked NetworkFailure = False \<and>
   st_db (sync_step NetworkFailure rec0 (start_state [rec0, rec1])) = Some [rec0, rec1] \<and>
   st_failed (sync_step NetworkFailure rec0 (start_state [rec0, rec1])) = 1 \<and>
   distinct (map rec_id [rec0, rec1]) \<and> acked (first_ok 1) = False \<and>
   (\<exists>t. st_db (sync_records first_ok 0 [rec0, rec1] (start_state [rec0, rec1])) = Some t \<and>
        store_get t (rec_id rec1) = Some rec1) \<and>
   st_db (repeat_loop (replicate 11 all_fail) [rec0, rec1] (start_state [rec0, rec1])) =
     Some [rec0, rec1] \<and>
   st_failed (repeat_loop (replicate 11 all_fail) [rec0, rec1] (start_state [rec0, rec1])) = 22"
proof -
  note inst = failed_submission_changes_nothing
    [of NetworkFailure rec0 "start_state [rec0, rec1]" "[rec0, rec1]" "[rec0, rec1]" 1 first_ok
        "replicate 11 all_fail"]
  have a: "acked NetworkFailure = False"
    by (simp add: acked_def)
  have d: "distinct (map rec_id [rec0, rec1])"
    using rec_ids_differ by simp
  have f: "acked (first_ok 1) = False"
    by (simp add: acked_def first_ok_def)
  have all: "\<forall>net \<in> set (replicate 11 all_fail). \<forall>i. \<not> acked (net i)"
    by (simp add: not_acked_all_fail)
  from inst a have one: "st_db (sync_step NetworkFailure rec0 (start_state [rec0, rec1])) = Some [rec0, rec1]"
    "st_failed (sync_step NetworkFailure rec0 (start_state [rec0, rec1])) = 1"
    by simp_all
  from inst d f have two: "\<exists>t. st_db (sync_records first_ok 0 [rec0, rec1] (start_state [rec0, rec1])) = Some t \<and>
        store_get t (rec_id rec1) = Some rec1"
    by simp
  from inst all have three:
    "st_db (repeat_loop (replicate 11 all_fail) [rec0, rec1] (start_state [rec0, rec1])) =
       Some [rec0, rec1]"
    "st_failed (repeat_loop (replicate 11 all_fail) [rec0, rec1] (start_state [rec0, rec1])) = 22"
    by simp_all
  from a one d f two three show ?thesis
    by blast
qed

text \<open>
  C5 as stated fails: a failed submission leaves the stored record exactly as it was
  (nothing is counted in it), and after eleven runs of the loop in which its submission
  fails the record is still in the store with \<open>synced = false\<close>, in no other state.
\<close>

theorem no_retry_ceiling_counterexample:
  "st_db (sync_step NetworkFailure rec0 (start_state [rec0])) = Some [rec0] \<and>
   st_db (repeat_loop
            [all_fail, all_fail, all_fail, all_fail, all_fail, all_fail,
             all_fail, all_fail, all_fail, all_fail, all_fail] [rec0] (start_state [rec0])) =
     Some [rec0] \<and>
   synced rec0 = False"
  by (simp add: start_state_def sync_step_def all_fail_def rec0_def)

section \<open>The two implementations of the loop\<close>

lemma sw_start_state_simps [simp]:
  "sw_db (sw_start_state s) = s" "sw_sent (sw_start_state s) = []"
  by (simp_all add: sw_start_state_def)

text \<open>
  C10 (as amended). Run on the same batch with the same outcomes of the requests, the
  loop of the service worker's \<open>syncAttendanceData\<close> and the loop of
  \<open>OfflineStorage.syncWithServer\<close> make one request per record in the same order and
  leave the same store, so they mark the same records synced. They differ in the
  payload: the service worker posts the stored record whole, with id, teacherId,
  timestamp and synced flag; \<open>syncWithServer\<close> posts seven fields, without these four.
  They differ on a missing record: the service worker's \<open>markRecordSynced\<close> resolves and
  leaves the store as it is, that of \<open>OfflineStorage\<close> rejects with "Record not found";
  on a record that is present both write the same store.
\<close>

theorem sync_implementations_compared:
  "st_db (sync_records net 0 rs (start_state s)) =
     Some (sw_db (sw_sync_records net 0 rs (sw_start_state s))) \<and>
   map fst (st_sent (sync_records net 0 rs (start_state s))) =
     map (\<lambda>r. [\<lparr>b_id = None, b_studentId = studentId r, b_teacherId = None,
                  b_class = class_name r, b_subject = subject r, b_period = period r,
                  b_status = status r, b_method = method_name r, b_date = date r,
                  b_timestamp = None, b_synced = None\<rparr>]) rs \<and>
   map fst (sw_sent (sw_sync_records net 0 rs (sw_start_state s))) =
     map (\<lambda>r. [\<lparr>b_id = Some (rec_id r), b_studentId = studentId r,
                  b_teacherId = teacherId r, b_class = class_name r, b_subject = subject r,
                  b_period = period r, b_status = status r, b_method = method_name r,
                  b_date = date r, b_timestamp = Some (timestamp r),
                  b_synced = Some (synced r)\<rparr>]) rs \<and>
   map snd (st_sent (sync_records net 0 rs (start_state s))) =
     map snd (sw_sent (sw_sync_records net 0 rs (sw_start_state s))) \<and>
   (k \<notin> rec_id ` set s \<longrightarrow>
      markRecordSynced (Some s) k = Inl RecordNotFound \<and> sw_markRecordSynced s k = s) \<and>
   (k \<in> rec_id ` set s \<longrightarrow>
      markRecordSynced (Some s) k = Inr (Some (sw_markRecordSynced s k)))"
proof -
  have "st_db (start_state s) = Some (sw_db (sw_start_state s))"
    by simp
  then have same: "st_db (sync_records net 0 rs (start_state s)) =
      Some (sw_db (sw_sync_records net 0 rs (sw_start_state s)))"
    by (rule sync_records_same_db)
  have bodies: "map fst (st_sent (sync_records net 0 rs (start_state s))) =
      map (\<lambda>r. [apiRecord r]) rs"
    by (simp add: sync_records_sent map_fst_comp_sent)
  have sw_bodies: "map fst (sw_sent (sw_sync_records net 0 rs (sw_start_state s))) =
      map (\<lambda>r. [fullRecord r]) rs"
    by (simp add: sw_sync_records_sent map_fst_comp_sent)
  have outcomes: "map snd (st_sent (sync_records net 0 rs (start_state s))) =
      map snd (sw_sent (sw_sync_records net 0 rs (sw_start_state s)))"
    by (simp add: sync_records_sent sw_sync_records_sent map_snd_comp_sent)
  have missing: "markRecordSynced (Some s) k = Inl RecordNotFound \<and> sw_markRecordSynced s k = s"
    if "k \<notin> rec_id ` set s"
  proof -
    from that have "store_get s k = None"
      by (simp add: store_get_None_iff)
    then show ?thesis
      by (simp add: markRecordSynced_def sw_markRecordSynced_def)
  qed
  have present: "markRecordSynced (Some s) k = Inr (Some (sw_markRecordSynced s k))"
    if "k \<in> rec_id ` set s"
  proof -
    from that obtain r where "store_get s k = Some r"
      using store_get_None_iff [of s k] by (cases "store_get s k") auto
    then show ?thesis
      by (simp add: markRecordSynced_def sw_markRecordSynced_def)
  qed
  from same bodies sw_bodies outcomes missing present show ?thesis
    unfolding apiRecord_def fullRecord_def by blast
qed

theorem sync_implementations_compared_witness:
  "st_db (sync_records first_ok 0 [rec0, rec1] (start_state [rec0, rec1])) =
     Some (sw_db (sw_sync_records first_ok 0 [rec0, rec1] (sw_start_state [rec0, rec1]))) \<and>
   map (map b_id) (map fst (st_sent (sync_records first_ok 0 [rec0, rec1] (start_state [rec0, rec1])))) =
     [[None], [None]] \<and>
   map (map b_id) (map fst (sw_sent (sw_sync_records first_ok 0 [rec0, rec1] (sw_start_state [rec0, rec1])))) =
     [[Some ''offline_1700000000000_k3j9x0a1b''], [Some ''offline_1700000000400_q8w2e4r6t'']] \<and>
   ''offline_0_missing'' \<notin> rec_id ` set [rec0, rec1] \<and>
   markRecordSynced (Some [rec0, rec1]) ''offline_0_missing'' = Inl RecordNotFound \<and>
   sw_markRecordSynced [rec0, rec1] ''offline_0_missing'' = [rec0, rec1] \<and>
   rec_id rec0 \<in> rec_id ` set [rec0, rec1] \<and>
   markRecordSynced (Some [rec0, rec1]) (rec_id rec0) =
     Inr (Some (sw_markRecordSynced [rec0, rec1] (rec_id rec0)))"
proof -
  have m: "''offline_0_missing'' \<notin> rec_id ` set [rec0, rec1]"
    by (simp add: rec0_def rec1_def)
  have p: "rec_id rec0 \<in> rec_id ` set [rec0, rec1]"
    by simp
  note a = sync_implementations_compared [of first_ok "[rec0, rec1]" "[rec0, rec1]" "''offline_0_missing''"]
  note b = sync_implementations_compared [of first_ok "[rec0, rec1]" "[rec0, rec1]" "rec_id rec0"]
  from a have same: "st_db (sync_records first_ok 0 [rec0, rec1] (start_state [rec0, rec1])) =
     Some (sw_db (sw_sync_records first_ok 0 [rec0, rec1] (sw_start_state [rec0, rec1])))"
    by (rule conjunct1)
  from a have "map fst (st_sent (sync_records first_ok 0 [rec0, rec1] (start_state [rec0, rec1]))) =
     map (\<lambda>r. [\<lparr>b_id = None, b_studentId = studentId r, b_teacherId = None,
                  b_class = class_name r, b_subject = subject r, b_period = period r,
                  b_status = status r, b_method = method_name r, b_date = date r,
                  b_timestamp = None, b_synced = None\<rparr>]) [rec0, rec1]"
    by blast
  then have ids: "map (map b_id) (map fst (st_sent (sync_records first_ok 0 [rec0, rec1] (start_state [rec0, rec1])))) =
     [[None], [None]]"
    by simp
  from a have "map fst (sw_sent (sw_sync_records first_ok 0 [rec0, rec1] (sw_start_state [rec0, rec1]))) =
     map (\<lambda>r. [\<lparr>b_id = Some (rec_id r), b_studentId = studentId r,
                  b_teacherId = teacherId r, b_class = class_name r, b_subject = subject r,
                  b_period = period r, b_status = status r, b_method = method_name r,
                  b_date = date r, b_timestamp = Some (timestamp r),
                  b_synced = Some (synced r)\<rparr>]) [rec0, rec1]"
    by blast
  then have sw_ids: "map (map b_id) (map fst (sw_sent (sw_sync_records first_ok 0 [rec0, rec1] (sw_start_state [rec0, rec1])))) =
     [[Some ''offline_1700000000000_k3j9x0a1b''], [Some ''offline_1700000000400_q8w2e4r6t'']]"
    by (simp add: rec0_def rec1_def)
  from a b m p same ids sw_ids show ?thesis
    by blast
qed

text \<open>
  C10 as stated fails: for the same record the two loops post different payloads (only
  the service worker's carries the id, the teacherId, the timestamp and the synced
  flag), and on a missing record the service worker's \<open>markRecordSynced\<close> resolves while
  that of \<open>OfflineStorage\<close> rejects.
\<close>

theorem sync_implementations_differ_counterexample:
  "map fst (st_sent (sync_records all_ok 0 [rec0] (start_state [rec0]))) =
     [[\<lparr>b_id = None, b_studentId = Some ''s1'', b_teacherId = None,
        b_class = Some ''Class 1-A'', b_subject = None, b_period = Some ''1'',
        b_status = Some ''present'', b_method = Some ''manual'',
        b_date = Some ''2024-01-15'', b_timestamp = None, b_synced = None\<rparr>]] \<and>
   map fst (sw_sent (sw_sync_records all_ok 0 [rec0] (sw_start_state [rec0]))) =
     [[\<lparr>b_id = Some ''offline_1700000000000_k3j9x0a1b'', b_studentId = Some ''s1'',
        b_teacherId = Some ''t1'', b_class = Some ''Class 1-A'', b_subject = None,
        b_period = Some ''1'', b_status = Some ''present'', b_method = Some ''manual'',
        b_date = Some ''2024-01-15'', b_timestamp = Some 1700000000000,
        b_synced = Some False\<rparr>]] \<and>
   markRecordSynced (Some [rec0]) ''offline_0_missing'' = Inl RecordNotFound \<and>
   sw_markRecordSynced [rec0] ''offline_0_missing'' = [rec0]"
  by (simp add: start_state_def sw_start_state_def sync_step_def sw_sync_step_def
      markRecordSynced_def sw_markRecordSynced_def store_get_def store_put_def ok_def
      created_def all_ok_def apiRecord_def fullRecord_def rec0_def)

section \<open>The attendance endpoint\<close>

lemma parse_insert_valid:
  "valid_item data \<Longrightarrow>
   parse_insert user today data =
     Some \<lparr>ins_studentId = the (b_studentId data), ins_teacherId = user_id user,
           ins_class = the (b_class data), ins_subject = b_subject data,
           ins_date = (if truthy (b_date data) then the (b_date data) else today),
           ins_period = b_period data, ins_status = the (b_status data),
           ins_method = the (b_method data)\<rparr>"
  by (auto simp: valid_item_def parse_insert_def)

lemma createAttendance_fresh:
  assumes "valid_item data" and "uuid \<notin> att_id ` set (attendance st)"
  shows "createAttendance uuid now (the (parse_insert user today data)) st =
           (row_of user today now uuid data,
            st\<lparr>attendance := attendance st @ [row_of user today now uuid data]\<rparr>)"
proof -
  have row: "new_row uuid now (the (parse_insert user today data)) = row_of user today now uuid data"
    using assms(1) by (simp add: parse_insert_valid new_row_def row_of_def)
  have "find (\<lambda>x. att_id x = uuid) (attendance st) = None"
    using assms(2) by (auto simp: find_None_iff)
  then show ?thesis
    by (simp add: createAttendance_def row attendance_set_def row_of_def)
qed

lemma mark_all_fresh:
  assumes "\<forall>data \<in> set items. valid_item data"
    and "distinct (map uuid [k..<k + length items])"
    and "uuid ` {k..<k + length items} \<inter> att_id ` set (attendance st) = {}"
  shows "mark_all uuid k user today now items results st =
           (Some (results @ map (\<lambda>(i, data). row_of user today now (uuid i) data) (enumerate k items)),
            st\<lparr>attendance := attendance st @
                 map (\<lambda>(i, data). row_of user today now (uuid i) data) (enumerate k items)\<rparr>)"
  using assms
proof (induction items arbitrary: k results st)
  case Nil
  then show ?case by simp
next
  case (Cons data rest)
  let ?row = "row_of user today now (uuid k) data"
  let ?st' = "st\<lparr>attendance := attendance st @ [?row]\<rparr>"
  have v: "valid_item data"
    using Cons.prems(1) by simp
  have "k \<in> {k..<k + length (data # rest)}"
    by simp
  then have "uuid k \<in> uuid ` {k..<k + length (data # rest)}"
    by (rule imageI)
  with Cons.prems(3) have "uuid k \<notin> att_id ` set (attendance st)"
    by blast
  with v have step: "createAttendance (uuid k) now (the (parse_insert user today data)) st =
      (?row, ?st')"
    by (rule createAttendance_fresh)
  obtain ins where ins: "parse_insert user today data = Some ins"
    using parse_insert_valid [OF v] by blast
  have upt: "[k..<k + length (data # rest)] = k # [Suc k..<Suc k + length rest]"
    by (simp add: upt_rec)
  have d: "distinct (map uuid [Suc k..<Suc k + length rest])"
    and notin: "uuid k \<notin> uuid ` {Suc k..<Suc k + length rest}"
    using Cons.prems(2) unfolding upt by auto
  have "uuid ` {Suc k..<Suc k + length rest} \<inter> att_id ` set (attendance ?st') = {}"
  proof -
    have "{Suc k..<Suc k + length rest} \<subseteq> {k..<k + length (data # rest)}"
      by auto
    then have "uuid ` {Suc k..<Suc k + length rest} \<inter> att_id ` set (attendance st) = {}"
      using Cons.prems(3) by blast
    moreover have "att_id ?row = uuid k"
      by (simp add: row_of_def)
    ultimately show ?thesis
      using notin by auto
  qed
  from Cons.IH [OF _ d this, of "results @ [?row]"] Cons.prems(1)
  have "mark_all uuid (Suc k) user today now rest (results @ [?row]) ?st' =
      (Some ((results @ [?row]) @
             map (\<lambda>(i, data). row_of user today now (uuid i) data) (enumerate (Suc k) rest)),
       ?st'\<lparr>attendance := attendance ?st' @
             map (\<lambda>(i, data). row_of user today now (uuid i) data) (enumerate (Suc k) rest)\<rparr>)"
    by simp
  then show ?case
    using step ins by simp
qed

text \<open>
  C3 (as amended). The endpoint keeps no record of the ids it has seen: for an
  authenticated request whose elements all validate, every element creates one new row
  under the id drawn for it, whatever local id the element carries and whatever rows the
  table already holds. With drawn ids that are new and pairwise distinct the table grows
  by exactly one row per element, so submitting the same record twice leaves two rows.
\<close>

theorem post_attendance_mark_appends:
  assumes "req_user req = Some user"
    and "\<forall>data \<in> set (attendanceData (req_body req)). valid_item data"
    and "distinct (map uuid [0..<length (attendanceData (req_body req))])"
    and "uuid ` {0..<length (attendanceData (req_body req))} \<inter> att_id ` set (attendance st) = {}"
  shows "post_attendance_mark uuid today now req st =
           ((201, AttendanceRows
                    (map (\<lambda>(i, data). row_of user today now (uuid i) data)
                       (enumerate 0 (attendanceData (req_body req))))),
            st\<lparr>attendance := attendance st @
                 map (\<lambda>(i, data). row_of user today now (uuid i) data)
                   (enumerate 0 (attendanceData (req_body req)))\<rparr>) \<and>
         length (attendance (snd (post_attendance_mark uuid today now req st))) =
           length (attendance st) + length (attendanceData (req_body req))"
proof -
  have "mark_all uuid 0 user today now (attendanceData (req_body req)) [] st =
      (Some ([] @ map (\<lambda>(i, data). row_of user today now (uuid i) data)
                    (enumerate 0 (attendanceData (req_body req)))),
       st\<lparr>attendance := attendance st @
            map (\<lambda>(i, data). row_of user today now (uuid i) data)
              (enumerate 0 (attendanceData (req_body req)))\<rparr>)"
    using assms(2-4) by (intro mark_all_fresh) simp_all
  then show ?thesis
    by (simp add: post_attendance_mark_def assms(1))
qed

lemmas server_eval_defs =
  post_attendance_mark_def attendanceData_def parse_insert_def createAttendance_def
  new_row_def attendance_set_def truthy_def mark_request_def fullRecord_def rec0_def
  school_def teacher_def uuids_a_def uuids_b_def

text \<open>The theorem at the first submission of a record to an empty table.\<close>

theorem post_attendance_mark_appends_witness:
  "req_user (mark_request (Some teacher)) = Some teacher \<and>
   valid_item (fullRecord rec0) \<and>
   distinct (map uuids_a [0..<length (attendanceData (req_body (mark_request (Some teacher))))]) \<and>
   uuids_a ` {0..<length (attendanceData (req_body (mark_request (Some teacher))))} \<inter>
     att_id ` set (attendance school) = {} \<and>
   length (attendance (snd (post_attendance_mark uuids_a ''2024-01-16'' 1700000900000
                              (mark_request (Some teacher)) school))) = 1"
proof -
  have items: "attendanceData (req_body (mark_request (Some teacher))) = [fullRecord rec0]"
    by (simp add: mark_request_def attendanceData_def)
  have u: "req_user (mark_request (Some teacher)) = Some teacher"
    by (simp add: mark_request_def)
  have v: "valid_item (fullRecord rec0)"
    by (simp add: valid_item_def fullRecord_def rec0_def)
  then have vs: "\<forall>data \<in> set (attendanceData (req_body (mark_request (Some teacher)))). valid_item data"
    by (simp add: items)
  have d: "distinct (map uuids_a [0..<length (attendanceData (req_body (mark_request (Some teacher))))])"
    by (simp add: items)
  have f: "uuids_a ` {0..<length (attendanceData (req_body (mark_request (Some teacher))))} \<inter>
      att_id ` set (attendance school) = {}"
    by (simp add: school_def)
  from post_attendance_mark_appends [OF u vs d f, of "''2024-01-16''" 1700000900000]
  have "length (attendance (snd (post_attendance_mark uuids_a ''2024-01-16'' 1700000900000
                              (mark_request (Some teacher)) school))) =
        length (attendance school) + length (attendanceData (req_body (mark_request (Some teacher))))"
    by (rule conjunct2)
  then have "length (attendance (snd (post_attendance_mark uuids_a ''2024-01-16'' 1700000900000
                              (mark_request (Some teacher)) school))) = 1"
    by (simp add: items school_def)
  with u v d f show ?thesis
    by blast
qed

text \<open>
  C3 as stated fails: the same record, with the same local id, submitted in two requests
  leaves two rows for the same student, date and period.
\<close>

theorem post_attendance_mark_twice_counterexample:
  "map (\<lambda>a. (att_id a, att_studentId a, att_date a, att_period a))
     (attendance
        (snd (post_attendance_mark uuids_b ''2024-01-16'' 1700000950000 (mark_request (Some teacher))
           (snd (post_attendance_mark uuids_a ''2024-01-16'' 1700000900000
                   (mark_request (Some teacher)) school))))) =
     [(''7c9e6679-7425-40de-944b-e07fc1f90ae7'', ''s1'', ''2024-01-15'', Some ''1''),
      (''16fd2706-8baf-433b-82eb-8c7fada847da'', ''s1'', ''2024-01-15'', Some ''1'')]"
  by (simp add: server_eval_defs)

section \<open>Sessions\<close>

text \<open>
  C7. The attendance endpoint answers a request without an authenticated session with
  401 and leaves the storage as it is. The handler of \<open>GET /api/students\<close> never looks
  at the session: its reply is the same with and without one, always with status 200,
  so a request without a session is served the roster.
\<close>

theorem students_served_without_session:
  "post_attendance_mark uuid today now (req\<lparr>req_user := None\<rparr>) st =
     ((401, Message ''Authentication required''), st) \<and>
   get_students (req\<lparr>req_user := None\<rparr>) st = get_students req st \<and>
   fst (get_students req st) = 200 \<and>
   isAuthenticated (mark_request None) = False \<and>
   get_students (mark_request None) school = (200, StudentRows [raj])"
  by (simp add: post_attendance_mark_def get_students_def Let_def isAuthenticated_def
      mark_request_def truthy_def getAllStudents_def school_def raj_def)

section \<open>Roster reads through the service worker\<close>

lemma roster_is_offline_api:
  "prefix ''/api/students'' (rq_pathname rq) \<Longrightarrow>
   list_ex (\<lambda>api. prefix api (rq_pathname rq)) OFFLINE_APIS"
  by (simp add: OFFLINE_APIS_def)

text \<open>
  C8 (as amended). A roster read through the service worker (\<open>GET\<close> of a path under
  \<open>/api/students\<close>) goes to the network first, and its snapshot is kept per request
  (path and query string). When the fetch resolves with a 2xx response, that response is
  served and, unless the cache refuses it (status 206 or \<open>Vary: *\<close>), replaces the entry
  of the request in the dynamic cache, nothing else changing; where the static cache
  has no entry for the request, a later read whose fetch rejects is served that
  response. When the fetch resolves with another status (a server error), the response
  is served as it is and no cache is consulted or changed, also when a snapshot is
  cached. When the fetch rejects, the cached response of the request is served if there
  is one, and the "not available offline" reply otherwise; the caches stay as they are.
  \<open>cacheStudents\<close> replaces the whole students cache of \<open>OfflineStorage\<close> by the
  students it is given, when their ids and their roll numbers are distinct.
\<close>

theorem handleApiRequest_network_first:
  assumes "prefix ''/api/students'' (rq_pathname rq)"
  shows "(ok resp \<and> resp_status resp \<noteq> 206 \<and> resp_vary_star resp = False \<longrightarrow>
            handleApiRequest (Resolved resp) rq c =
              (resp, c\<lparr>dynamic_cache := (dynamic_cache c)(rq_key rq \<mapsto> resp)\<rparr>) \<and>
            (static_cache c (rq_key rq) = None \<longrightarrow>
               handleApiRequest NetworkFailure rq (snd (handleApiRequest (Resolved resp) rq c)) =
                 (resp, snd (handleApiRequest (Resolved resp) rq c)))) \<and>
         (ok resp \<and> (resp_status resp = 206 \<or> resp_vary_star resp) \<longrightarrow>
            handleApiRequest (Resolved resp) rq c = (resp, c)) \<and>
         (\<not> ok resp \<longrightarrow> handleApiRequest (Resolved resp) rq c = (resp, c)) \<and>
         (\<forall>snap. caches_match c rq = Some snap \<longrightarrow>
            handleApiRequest NetworkFailure rq c = (snap, c)) \<and>
         (caches_match c rq = None \<longrightarrow>
            handleApiRequest NetworkFailure rq c = (offline_response, c)) \<and>
         (distinct (map os_id studs) \<and> distinct (map os_rollNumber studs) \<longrightarrow>
            cacheStudents clock (Some old) studs =
              Inr (Some (map (\<lambda>(i, x). x\<lparr>os_lastUpdated := clock i\<rparr>) (enumerate 0 studs))))"
proof -
  have api: "list_ex (\<lambda>api. prefix api (rq_pathname rq)) OFFLINE_APIS"
    using assms by (rule roster_is_offline_api)
  let ?c' = "c\<lparr>dynamic_cache := (dynamic_cache c)(rq_key rq \<mapsto> resp)\<rparr>"
  have fresh: "handleApiRequest (Resolved resp) rq c = (resp, ?c')"
    if "ok resp" "resp_status resp \<noteq> 206" "resp_vary_star resp = False"
    using that api by (simp add: handleApiRequest_def cache_put_def)
  have later: "handleApiRequest NetworkFailure rq (snd (handleApiRequest (Resolved resp) rq c)) =
      (resp, snd (handleApiRequest (Resolved resp) rq c))"
    if "ok resp" "resp_status resp \<noteq> 206" "resp_vary_star resp = False"
      "static_cache c (rq_key rq) = None"
  proof -
    have "caches_match ?c' rq = Some resp"
      using that(4) by (simp add: caches_match_def)
    then have "handleApiRequest NetworkFailure rq ?c' = (resp, ?c')"
      by (simp add: handleApiRequest_def)
    then show ?thesis
      by (simp add: fresh [OF that(1-3)])
  qed
  have refused: "handleApiRequest (Resolved resp) rq c = (resp, c)"
    if "ok resp" "resp_status resp = 206 \<or> resp_vary_star resp"
    using that api by (auto simp: handleApiRequest_def cache_put_def)
  have pass: "handleApiRequest (Resolved resp) rq c = (resp, c)" if "\<not> ok resp"
    using that by (simp add: handleApiRequest_def)
  have stale: "handleApiRequest NetworkFailure rq c = (snap, c)"
    if "caches_match c rq = Some snap" for snap
    using that by (simp add: handleApiRequest_def)
  have none: "handleApiRequest NetworkFailure rq c = (offline_response, c)"
    if "caches_match c rq = None"
    using that by (simp add: handleApiRequest_def)
  have wholesale: "cacheStudents clock (Some old) studs =
      Inr (Some (map (\<lambda>(i, x). x\<lparr>os_lastUpdated := clock i\<rparr>) (enumerate 0 studs)))"
    if "distinct (map os_id studs)" "distinct (map os_rollNumber studs)"
    using that by (simp add: cacheStudents_def)
  from fresh later refused pass stale none wholesale show ?thesis
    by blast
qed

text \<open>
  The theorem at a read for one class: a fresh roster over a stale one, a server error,
  a rejected fetch with and without a cached roster, and a new list for the students
  cache.
\<close>

theorem handleApiRequest_network_first_witness:
  "prefix ''/api/students'' (rq_pathname roster_request) \<and>
   ok new_roster \<and> resp_status new_roster \<noteq> 206 \<and> resp_vary_star new_roster = False \<and>
   static_cache stale_caches (rq_key roster_request) = None \<and>
   fst (handleApiRequest (Resolved new_roster) roster_request stale_caches) = new_roster \<and>
   handleApiRequest NetworkFailure roster_request
       (snd (handleApiRequest (Resolved new_roster) roster_request stale_caches)) =
     (new_roster, snd (handleApiRequest (Resolved new_roster) roster_request stale_caches)) \<and>
   ok server_error = False \<and>
   handleApiRequest (Resolved server_error) roster_request stale_caches =
     (server_error, stale_caches) \<and>
   caches_match stale_caches roster_request = Some old_roster \<and>
   handleApiRequest NetworkFailure roster_request stale_caches = (old_roster, stale_caches) \<and>
   caches_match empty_caches roster_request = None \<and>
   handleApiRequest NetworkFailure roster_request empty_caches = (offline_response, empty_caches) \<and>
   cacheStudents (\<lambda>i. 1700000600000) (Some [cached_raj]) [fetched_anita] =
     Inr (Some [fetched_anita])"
proof -
  have p: "prefix ''/api/students'' (rq_pathname roster_request)"
    by (simp add: roster_request_def)
  have k: "ok new_roster" "resp_status new_roster \<noteq> 206" "resp_vary_star new_roster = False"
    by (simp_all add: ok_def new_roster_def)
  have s: "static_cache stale_caches (rq_key roster_request) = None"
    by (simp add: stale_caches_def)
  have e: "ok server_error = False"
    by (simp add: ok_def server_error_def)
  have m: "caches_match stale_caches roster_request = Some old_roster"
    "caches_match empty_caches roster_request = None"
    by (simp_all add: caches_match_def stale_caches_def empty_caches_def)
  have ds: "distinct (map os_id [fetched_anita])" "distinct (map os_rollNumber [fetched_anita])"
    by simp_all
  note a = handleApiRequest_network_first
    [OF p, of new_roster stale_caches "[fetched_anita]" "\<lambda>i. 1700000600000" "[cached_raj]"]
  note b = handleApiRequest_network_first
    [OF p, of server_error stale_caches "[fetched_anita]" "\<lambda>i. 1700000600000" "[cached_raj]"]
  note c = handleApiRequest_network_first
    [OF p, of new_roster empty_caches "[fetched_anita]" "\<lambda>i. 1700000600000" "[cached_raj]"]
  from a k have f1: "handleApiRequest (Resolved new_roster) roster_request stale_caches =
      (new_roster, stale_caches\<lparr>dynamic_cache :=
         (dynamic_cache stale_caches)(rq_key roster_request \<mapsto> new_roster)\<rparr>)"
    by blast
  have f2: "fst (handleApiRequest (Resolved new_roster) roster_request stale_caches) = new_roster"
    by (simp only: f1 fst_conv)
  from a k s have f3: "handleApiRequest NetworkFailure roster_request
       (snd (handleApiRequest (Resolved new_roster) roster_request stale_caches)) =
     (new_roster, snd (handleApiRequest (Resolved new_roster) roster_request stale_caches))"
    by blast
  from b e have f4: "handleApiRequest (Resolved server_error) roster_request stale_caches =
     (server_error, stale_caches)"
    by blast
  from a m(1) have f5: "handleApiRequest NetworkFailure roster_request stale_caches =
      (old_roster, stale_caches)"
    by blast
  from c m(2) have f6: "handleApiRequest NetworkFailure roster_request empty_caches =
      (offline_response, empty_caches)"
    by blast
  from a ds have "cacheStudents (\<lambda>i. 1700000600000) (Some [cached_raj]) [fetched_anita] =
      Inr (Some (map (\<lambda>(i, x). x\<lparr>os_lastUpdated := 1700000600000\<rparr>) (enumerate 0 [fetched_anita])))"
    by blast
  then have f7: "cacheStudents (\<lambda>i. 1700000600000) (Some [cached_raj]) [fetched_anita] =
      Inr (Some [fetched_anita])"
    by (simp add: fetched_anita_def)
  from p k s f2 f3 e f4 m f5 f6 f7 show ?thesis
    by blast
qed

text \<open>
  C8 as stated fails: with a roster cached for the request, a fetch that comes back with
  a server error is answered with that error, not with the cached roster.
\<close>

theorem server_error_not_served_from_cache_counterexample:
  "caches_match stale_caches roster_request = Some old_roster \<and>
   handleApiRequest (Resolved server_error) roster_request stale_caches =
     (server_error, stale_caches) \<and>
   resp_status server_error = 500 \<and>
   server_error \<noteq> old_roster"
  by (simp add: handleApiRequest_def caches_match_def stale_caches_def ok_def
      server_error_def old_roster_def)

end
